theory Spec2Isabelle
  imports Main
begin

section \<open>Strings\<close>

text \<open>
  A JavaScript string is modelled as the list of its code units, each code unit being a
  \<^typ>\<open>char\<close> (so the model covers code units below 256).
\<close>

definition is_line_terminator :: "char \<Rightarrow> bool" where
  "is_line_terminator c \<longleftrightarrow> c = CHR 0x0A \<or> c = CHR 0x0D"

text \<open>The characters removed by \<^verbatim>\<open>trim()\<close> and matched by \<^verbatim>\<open>\s\<close>: TAB, LF, VT, FF, CR,
  SPACE and NBSP are the ones below 256.\<close>

definition is_whitespace :: "char \<Rightarrow> bool" where
  "is_whitespace c \<longleftrightarrow>
     c = CHR 0x09 \<or> c = CHR 0x0A \<or> c = CHR 0x0B \<or> c = CHR 0x0C \<or> c = CHR 0x0D \<or>
     c = CHR 0x20 \<or> c = CHR 0xA0"

definition trim :: "string \<Rightarrow> string" where
  "trim s = rev (dropWhile is_whitespace (rev (dropWhile is_whitespace s)))"

fun startsWith :: "string \<Rightarrow> string \<Rightarrow> bool" where
  "startsWith s [] = True"
| "startsWith [] (p # ps) = False"
| "startsWith (c # cs) (p # ps) = (c = p \<and> startsWith cs ps)"

fun includes_str :: "string \<Rightarrow> string \<Rightarrow> bool" where
  "includes_str [] p = (p = [])"
| "includes_str (c # cs) p = (startsWith (c # cs) p \<or> includes_str cs p)"

text \<open>\<^verbatim>\<open>s.split('\n')\<close>: the pieces between line feeds; a string without line feed is one
  piece, the empty string included.\<close>

fun split_acc :: "string \<Rightarrow> string \<Rightarrow> string list" where
  "split_acc acc [] = [rev acc]"
| "split_acc acc (c # cs) =
     (if c = CHR 0x0A then rev acc # split_acc [] cs else split_acc (c # acc) cs)"

definition split_lines :: "string \<Rightarrow> string list" where
  "split_lines s = split_acc [] s"

section \<open>Regular expressions of the source, as backtracking matchers\<close>

text \<open>
  Each matcher takes the rest of the subject and returns \<open>None\<close> where the engine would
  backtrack. A literal consumes itself; \<^verbatim>\<open>\s*\<close> is greedy and gives characters back one at
  a time; \<^verbatim>\<open>(.+?)\<close> is lazy, takes at least one character that is no line terminator and
  grows one character at a time; an unanchored search tries the start positions from left
  to right.
\<close>

definition lit :: "string \<Rightarrow> string \<Rightarrow> string option" where
  "lit p s = (if startsWith s p then Some (drop (length p) s) else None)"

fun star_ws :: "(string \<Rightarrow> 'a option) \<Rightarrow> string \<Rightarrow> 'a option" where
  "star_ws k [] = k []"
| "star_ws k (c # cs) =
     (if is_whitespace c
      then (case star_ws k cs of Some r \<Rightarrow> Some r | None \<Rightarrow> k (c # cs))
      else k (c # cs))"

fun lazy_dot_plus :: "(string \<Rightarrow> string \<Rightarrow> 'a option) \<Rightarrow> string \<Rightarrow> string \<Rightarrow> 'a option" where
  "lazy_dot_plus k acc [] = None"
| "lazy_dot_plus k acc (c # cs) =
     (if is_line_terminator c then None
      else (case k (acc @ [c]) cs of
              Some r \<Rightarrow> Some r
            | None \<Rightarrow> lazy_dot_plus k (acc @ [c]) cs))"

fun regex_search :: "(string \<Rightarrow> 'a option) \<Rightarrow> string \<Rightarrow> 'a option" where
  "regex_search m [] = m []"
| "regex_search m (c # cs) =
     (case m (c # cs) of Some r \<Rightarrow> Some r | None \<Rightarrow> regex_search m cs)"

text \<open>\<^verbatim>\<open>/echo "(.+?)=(.+?)" >> \$GITHUB_OUTPUT/\<close> and its \<^verbatim>\<open>\$env:GITHUB_OUTPUT\<close> variant, at
  one start position; \<open>sink\<close> is the literal after the second group.\<close>

definition output_regex_at :: "string \<Rightarrow> string \<Rightarrow> (string \<times> string) option" where
  "output_regex_at sink s =
     (case lit ''echo \"'' s of
        None \<Rightarrow> None
      | Some s1 \<Rightarrow>
          lazy_dot_plus
            (\<lambda>key s2. case lit ''='' s2 of
                 None \<Rightarrow> None
               | Some s3 \<Rightarrow>
                   lazy_dot_plus
                     (\<lambda>value s4. case lit sink s4 of
                          None \<Rightarrow> None
                        | Some s5 \<Rightarrow> Some (key, value))
                     [] s3)
            [] s1)"

definition bash_sink :: string where
  "bash_sink = ''\" >> $GITHUB_OUTPUT''"

definition powershell_sink :: string where
  "powershell_sink = ''\" >> $env:GITHUB_OUTPUT''"

definition match_output :: "string \<Rightarrow> string \<Rightarrow> (string \<times> string) option" where
  "match_output sink line = regex_search (output_regex_at sink) line"

text \<open>\<^verbatim>\<open>/steps\.(.+?)\.outputs\.(.+?)\s*==\s*'(.+?)'/\<close> at one start position.\<close>

definition condition_regex_at :: "string \<Rightarrow> (string \<times> string \<times> string) option" where
  "condition_regex_at s =
     (case lit ''steps.'' s of
        None \<Rightarrow> None
      | Some s1 \<Rightarrow>
          lazy_dot_plus
            (\<lambda>stepId s2. case lit ''.outputs.'' s2 of
                 None \<Rightarrow> None
               | Some s3 \<Rightarrow>
                   lazy_dot_plus
                     (\<lambda>outputName s4.
                        star_ws
                          (\<lambda>s5. case lit ''=='' s5 of
                               None \<Rightarrow> None
                             | Some s6 \<Rightarrow>
                                 star_ws
                                   (\<lambda>s7. case lit [CHR 0x27] s7 of
                                        None \<Rightarrow> None
                                      | Some s8 \<Rightarrow>
                                          lazy_dot_plus
                                            (\<lambda>expectedValue s9. case lit [CHR 0x27] s9 of
                                                 None \<Rightarrow> None
                                               | Some s10 \<Rightarrow>
                                                   Some (stepId, outputName, expectedValue))
                                            [] s8)
                                   s6)
                          s4)
                     [] s3)
            [] s1)"

definition match_condition :: "string \<Rightarrow> (string \<times> string \<times> string) option" where
  "match_condition condition = regex_search condition_regex_at condition"

section \<open>Values raised and returned by command handlers\<close>

text \<open>
  A handler is a function \<^verbatim>\<open>() => unknown\<close>: it returns a value or throws one, and it may
  change variables it closes over. The values covered are \<^verbatim>\<open>undefined\<close>, \<^verbatim>\<open>null\<close>,
  booleans, strings, an \<^verbatim>\<open>Error\<close> with its message, an object whose conversion to a string
  gives a text (\<^verbatim>\<open>[object Object]\<close> for a plain object), and an object whose conversion
  to a string throws (an object without prototype, or one whose \<^verbatim>\<open>toString\<close> throws); the
  value thrown by the conversion is part of the object. The variables a handler closes
  over are a state of type \<open>'w\<close> that the handler transforms.
\<close>

datatype js_value =
    JsUndefined
  | JsNull
  | JsBool bool
  | JsString string
  | JsObject string
  | JsUnconvertible js_value
  | JsError string

datatype outcome = Returned js_value | Thrown js_value

type_synonym 'w CommandHandler = "'w \<Rightarrow> outcome \<times> 'w"

text \<open>A call either returns a value or raises one.\<close>

datatype 'a completion = Returns 'a | Raises js_value

text \<open>\<^verbatim>\<open>String(v)\<close>: the text, or the value that the conversion throws. An \<^verbatim>\<open>Error\<close>
  prints its name and message.\<close>

fun js_String :: "js_value \<Rightarrow> js_value + string" where
  "js_String JsUndefined = Inr ''undefined''"
| "js_String JsNull = Inr ''null''"
| "js_String (JsBool b) = Inr (if b then ''true'' else ''false'')"
| "js_String (JsString s) = Inr s"
| "js_String (JsObject t) = Inr t"
| "js_String (JsUnconvertible x) = Inl x"
| "js_String (JsError m) = Inr (if m = [] then ''Error'' else ''Error: '' @ m)"

text \<open>\<^verbatim>\<open>error instanceof Error ? error.message : String(error)\<close>\<close>

fun error_text :: "js_value \<Rightarrow> js_value + string" where
  "error_text (JsError m) = Inr m"
| "error_text v = js_String v"

section \<open>Steps, inputs and results\<close>

datatype Shell = Bash | Powershell | Pwsh | Sh | Cmd

record WorkflowStep =
  step_name :: string
  step_id :: "string option"
  step_shell :: "Shell option"
  step_run :: "string option"
  step_if :: "string option"

text \<open>The keys of the interface \<^verbatim>\<open>WorkflowInput\<close>. An input object is the list of its
  entries in the order \<^verbatim>\<open>Object.entries\<close> gives them; a key that is not supplied has no
  entry.\<close>

datatype input_key = GithubToken | PublicRepoToken | PrivateRepo | PublicRepo | WranglerPort

fun key_name :: "input_key \<Rightarrow> string" where
  "key_name GithubToken = ''github-token''"
| "key_name PublicRepoToken = ''public-repo-token''"
| "key_name PrivateRepo = ''private-repo''"
| "key_name PublicRepo = ''public-repo''"
| "key_name WranglerPort = ''wrangler-port''"

type_synonym WorkflowInput = "(input_key \<times> string) list"

record StepExecutionResult =
  success :: bool
  result_outputs :: "(string \<rightharpoonup> string) option"
  error :: "string option"

section \<open>WorkflowMocker\<close>

text \<open>\<open>mockedCommands\<close> is a \<^verbatim>\<open>Map\<close>: its entries in insertion order, a key at most once.
  \<open>outputs\<close> is an object used as a dictionary; its keys are of the type \<^verbatim>\<open>OutputKey\<close>, they
  start with \<^verbatim>\<open>steps.\<close>, and no property of \<^verbatim>\<open>Object.prototype\<close> has such a name, so a
  lookup reads the own properties.\<close>

record 'w WorkflowMocker =
  mockedCommands :: "(string \<times> 'w CommandHandler) list"
  outputs :: "string \<rightharpoonup> string"

text \<open>\<^verbatim>\<open>Map.prototype.set\<close>: a present key keeps its place and takes the new value, a new
  key goes to the end.\<close>

fun Map_set :: "'k \<Rightarrow> 'v \<Rightarrow> ('k \<times> 'v) list \<Rightarrow> ('k \<times> 'v) list" where
  "Map_set k v [] = [(k, v)]"
| "Map_set k v (e # es) = (if fst e = k then (k, v) # es else e # Map_set k v es)"

definition new_WorkflowMocker :: "'w WorkflowMocker" where
  "new_WorkflowMocker = \<lparr>mockedCommands = [], outputs = Map.empty\<rparr>"

definition mockCommand :: "string \<Rightarrow> 'w CommandHandler \<Rightarrow> 'w WorkflowMocker \<Rightarrow> 'w WorkflowMocker" where
  "mockCommand command handler m = m\<lparr>mockedCommands := Map_set command handler (mockedCommands m)\<rparr>"

definition setOutput :: "string \<Rightarrow> string \<Rightarrow> 'w WorkflowMocker \<Rightarrow> 'w WorkflowMocker" where
  "setOutput key val m = m\<lparr>outputs := (outputs m)(key \<mapsto> val)\<rparr>"

definition getOutput :: "string \<Rightarrow> 'w WorkflowMocker \<Rightarrow> string option" where
  "getOutput key m = outputs m key"

definition getOutputs :: "'w WorkflowMocker \<Rightarrow> (string \<rightharpoonup> string)" where
  "getOutputs m = outputs m"

text \<open>The loop of \<^verbatim>\<open>executeCommand\<close> over the entries: the handler of the first pattern the
  command contains.\<close>

fun find_handler :: "string \<Rightarrow> (string \<times> 'w CommandHandler) list \<Rightarrow> 'w CommandHandler option" where
  "find_handler command [] = None"
| "find_handler command (e # es) =
     (if includes_str command (fst e) then Some (snd e) else find_handler command es)"

definition no_mock_message :: "string \<Rightarrow> string" where
  "no_mock_message command = ''No mock found for command: '' @ command"

definition executeCommand :: "string \<Rightarrow> 'w WorkflowMocker \<Rightarrow> 'w \<Rightarrow> outcome \<times> 'w" where
  "executeCommand command m w =
     (case find_handler command (mockedCommands m) of
        Some handler \<Rightarrow> handler w
      | None \<Rightarrow> (Thrown (JsError (no_mock_message command)), w))"

definition reset :: "'w WorkflowMocker \<Rightarrow> 'w WorkflowMocker" where
  "reset m = m\<lparr>mockedCommands := [], outputs := Map.empty\<rparr>"

section \<open>Input interpolation\<close>

text \<open>The pattern built for one input key, \<^verbatim>\<open>\$\{\{\s*inputs\.KEY\s*\}\}\<close>, at one start
  position: the rest of the subject after the match. No key of the interface holds a
  character that is special in a pattern.\<close>

definition input_token_at :: "input_key \<Rightarrow> string \<Rightarrow> string option" where
  "input_token_at key s =
     (case lit ''${{'' s of
        None \<Rightarrow> None
      | Some s1 \<Rightarrow>
          star_ws
            (\<lambda>s2. case lit (''inputs.'' @ key_name key) s2 of
                 None \<Rightarrow> None
               | Some s3 \<Rightarrow> star_ws (\<lambda>s4. lit ''}}'' s4) s3)
            s1)"

text \<open>The replacement text of \<^verbatim>\<open>replace\<close> for a pattern without groups: \<^verbatim>\<open>$$\<close> is a
  dollar, \<^verbatim>\<open>$&\<close> the match, \<^verbatim>\<open>$`\<close> the subject preceding the match, \<^verbatim>\<open>$'\<close> the subject
  after it; every other character stands for itself.\<close>

fun get_substitution :: "string \<Rightarrow> string \<Rightarrow> string \<Rightarrow> string \<Rightarrow> string" where
  "get_substitution [] matched preceding following = []"
| "get_substitution [c] matched preceding following = [c]"
| "get_substitution (c # d # t) matched preceding following =
     (if c = CHR ''$'' then
        (if d = CHR ''$'' then CHR ''$'' # get_substitution t matched preceding following
         else if d = CHR ''&'' then matched @ get_substitution t matched preceding following
         else if d = CHR 0x60 then preceding @ get_substitution t matched preceding following
         else if d = CHR 0x27 then following @ get_substitution t matched preceding following
         else c # get_substitution (d # t) matched preceding following)
      else c # get_substitution (d # t) matched preceding following)"

lemma lit_length: "lit p s = Some r \<Longrightarrow> length r + length p = length s"
proof (induction s p rule: startsWith.induct)
  case (1 s)
  then show ?case by (simp add: lit_def)
next
  case (2 p ps)
  then show ?case by (simp add: lit_def)
next
  case (3 c cs p ps)
  then show ?case by (simp add: lit_def split: if_splits)
qed

lemma star_ws_length:
  assumes "\<And>s r. k s = Some r \<Longrightarrow> length r \<le> length s"
  shows "star_ws k s = Some r \<Longrightarrow> length r \<le> length s"
proof (induction s)
  case Nil
  then show ?case by (auto dest: assms)
next
  case (Cons c cs)
  show ?case
  proof (cases "is_whitespace c \<and> star_ws k cs \<noteq> None")
    case True
    with Cons have "length r \<le> length cs" by auto
    then show ?thesis by simp
  next
    case False
    with Cons.prems have "k (c # cs) = Some r" by (auto split: if_splits option.splits)
    then show ?thesis using assms by blast
  qed
qed

lemma input_token_at_shorter:
  assumes "input_token_at key s = Some r"
  shows "length r < length s"
proof -
  obtain s1 where s1: "lit ''${{'' s = Some s1"
    and rest: "star_ws (\<lambda>s2. case lit (''inputs.'' @ key_name key) s2 of
                 None \<Rightarrow> None | Some s3 \<Rightarrow> star_ws (\<lambda>s4. lit ''}}'' s4) s3) s1 = Some r"
    using assms by (auto simp: input_token_at_def split: option.splits)
  have inner: "\<And>s r. star_ws (\<lambda>s4. lit ''}}'' s4) s = Some r \<Longrightarrow> length r \<le> length s"
    by (rule star_ws_length) (auto dest: lit_length)
  have "length r \<le> length s1"
  proof (rule star_ws_length [OF _ rest])
    fix s2 r'
    assume "(case lit (''inputs.'' @ key_name key) s2 of
               None \<Rightarrow> None | Some s3 \<Rightarrow> star_ws (\<lambda>s4. lit ''}}'' s4) s3) = Some r'"
    then obtain s3 where "lit (''inputs.'' @ key_name key) s2 = Some s3"
      and "star_ws (\<lambda>s4. lit ''}}'' s4) s3 = Some r'"
      by (auto split: option.splits)
    then show "length r' \<le> length s2"
      using inner lit_length by fastforce
  qed
  moreover have "length s1 < length s" using lit_length [OF s1] by simp
  ultimately show ?thesis by simp
qed

text \<open>\<^verbatim>\<open>subject.replace(pattern, value)\<close> with the global flag: every match from left to
  right, the search going on after each match; \<open>preceding\<close> is the part of the subject already
  passed.\<close>

function replace_all :: "input_key \<Rightarrow> string \<Rightarrow> string \<Rightarrow> string \<Rightarrow> string" where
  "replace_all key val preceding [] = []"
| "replace_all key val preceding (c # cs) =
     (case input_token_at key (c # cs) of
        Some rest \<Rightarrow>
          get_substitution val (take (length (c # cs) - length rest) (c # cs)) preceding rest
          @ replace_all key val (preceding @ take (length (c # cs) - length rest) (c # cs)) rest
      | None \<Rightarrow> c # replace_all key val (preceding @ [c]) cs)"
  by pat_completeness auto
termination
  by (relation "measure (\<lambda>(key, val, preceding, s). length s)")
     (auto dest: input_token_at_shorter)

text \<open>\<^verbatim>\<open>Object.entries(inputs).forEach(...)\<close>: one replacement per entry, each on the result
  of the one preceding.\<close>

fun interpolate :: "WorkflowInput \<Rightarrow> string \<Rightarrow> string" where
  "interpolate [] processedRun = processedRun"
| "interpolate (e # es) processedRun = interpolate es (replace_all (fst e) (snd e) [] processedRun)"

section \<open>simulateWorkflowStep\<close>

text \<open>The state a simulation works on: the mocker, the variables the handlers close over,
  and the list of the lines handed to \<^verbatim>\<open>executeCommand\<close> so far.\<close>

record 'w sim_state =
  mocker :: "'w WorkflowMocker"
  world :: 'w
  dispatched :: "string list"

text \<open>\<^verbatim>\<open>`steps.${step.id}`\<close>: a step without id prints \<^verbatim>\<open>undefined\<close>.\<close>

definition id_text :: "WorkflowStep \<Rightarrow> string" where
  "id_text step = (case step_id step of None \<Rightarrow> ''undefined'' | Some i \<Rightarrow> i)"

definition output_key :: "WorkflowStep \<Rightarrow> string \<Rightarrow> string" where
  "output_key step key = ''steps.'' @ id_text step @ ''.outputs.'' @ key"

definition record_output :: "WorkflowStep \<Rightarrow> string \<Rightarrow> string \<Rightarrow> 'w sim_state \<Rightarrow> 'w sim_state" where
  "record_output step key val st = st\<lparr>mocker := setOutput (output_key step key) val (mocker st)\<rparr>"

text \<open>The body of the loop for one line: the value thrown, if any, and the state.\<close>

definition process_line :: "WorkflowStep \<Rightarrow> string \<Rightarrow> 'w sim_state \<Rightarrow> js_value option \<times> 'w sim_state" where
  "process_line step line st =
     (let trimmedLine = trim line in
      if trimmedLine = [] \<or> startsWith trimmedLine ''#'' then (None, st)
      else if step_shell step = Some Powershell then
        (if includes_str trimmedLine ''echo'' \<and> includes_str trimmedLine ''GITHUB_OUTPUT'' then
           (case match_output powershell_sink trimmedLine of
              Some (key, val) \<Rightarrow> (None, record_output step key val st)
            | None \<Rightarrow> (None, st))
         else if includes_str trimmedLine ''try {'' then
           (None, record_output step ''bash_available'' ''true'' st)
         else if includes_str trimmedLine ''} catch {'' then
           (None, record_output step ''bash_available'' ''false'' st)
         else (None, st))
      else
        (if includes_str trimmedLine ''echo'' \<and> includes_str trimmedLine ''GITHUB_OUTPUT'' then
           (case match_output bash_sink trimmedLine of
              Some (key, val) \<Rightarrow> (None, record_output step key val st)
            | None \<Rightarrow> (None, st))
         else
           (case executeCommand trimmedLine (mocker st) (world st) of
              (Returned v, w) \<Rightarrow>
                (None, st\<lparr>world := w, dispatched := dispatched st @ [trimmedLine]\<rparr>)
            | (Thrown e, w) \<Rightarrow>
                (Some e, st\<lparr>world := w, dispatched := dispatched st @ [trimmedLine]\<rparr>))))"

fun run_lines :: "WorkflowStep \<Rightarrow> string list \<Rightarrow> 'w sim_state \<Rightarrow> js_value option \<times> 'w sim_state" where
  "run_lines step [] st = (None, st)"
| "run_lines step (line # lines) st =
     (case process_line step line st of
        (Some e, st') \<Rightarrow> (Some e, st')
      | (None, st') \<Rightarrow> run_lines step lines st')"

definition step_outputs :: "WorkflowStep \<Rightarrow> 'w WorkflowMocker \<Rightarrow> (string \<rightharpoonup> string)" where
  "step_outputs step m =
     (\<lambda>k. if startsWith k (''steps.'' @ id_text step) then getOutputs m k else None)"

text \<open>The body of the \<^verbatim>\<open>try\<close> block returns, or a handler throws and the \<^verbatim>\<open>catch\<close> block
  builds the failure from the value thrown; what the \<^verbatim>\<open>catch\<close> block itself throws leaves
  the function.\<close>

definition simulateWorkflowStep ::
  "WorkflowStep \<Rightarrow> WorkflowInput \<Rightarrow> 'w sim_state
   \<Rightarrow> StepExecutionResult completion \<times> 'w sim_state" where
  "simulateWorkflowStep step inputs st =
     (case step_run step of
        None \<Rightarrow> (Returns \<lparr>success = True, result_outputs = None, error = None\<rparr>, st)
      | Some run \<Rightarrow>
          if run = [] then (Returns \<lparr>success = True, result_outputs = None, error = None\<rparr>, st)
          else
            (case run_lines step (split_lines (interpolate inputs run)) st of
               (Some e, st') \<Rightarrow>
                 (case error_text e of
                    Inr message \<Rightarrow>
                      (Returns \<lparr>success = False, result_outputs = None, error = Some message\<rparr>,
                       st')
                  | Inl x \<Rightarrow> (Raises x, st'))
             | (None, st') \<Rightarrow>
                 (Returns \<lparr>success = True, result_outputs = Some (step_outputs step (mocker st')),
                   error = None\<rparr>, st')))"

text \<open>The trimmed lines that the branch for the other shells hands to \<^verbatim>\<open>executeCommand\<close>:
  not empty, no comment, and not holding both \<^verbatim>\<open>echo\<close> and \<^verbatim>\<open>GITHUB_OUTPUT\<close>.\<close>

definition forwarded :: "string \<Rightarrow> bool" where
  "forwarded trimmedLine \<longleftrightarrow>
     trimmedLine \<noteq> [] \<and> \<not> startsWith trimmedLine ''#'' \<and>
     \<not> (includes_str trimmedLine ''echo'' \<and> includes_str trimmedLine ''GITHUB_OUTPUT'')"

section \<open>WorkflowValidator\<close>

text \<open>The action definition the validator holds. The inputs are the own properties of the
  parsed object in the order of their insertion, which is the order of the declarations
  in the document.\<close>

record InputConfig =
  input_description :: string
  required :: bool
  input_default :: "string option"

record ActionRuns =
  runs_using :: string
  runs_steps :: "WorkflowStep list"

record ActionConfig =
  action_name :: string
  action_description :: string
  action_author :: "string option"
  action_inputs :: "(string \<times> InputConfig) list"
  action_runs :: ActionRuns

text \<open>
  \<^verbatim>\<open>Object.entries\<close> lists the properties whose name is an array index first, by ascending
  index, and the other properties after them in the order of their insertion. An array
  index is the decimal numeral, without leading zero, of a number below \<open>2\<^sup>3\<^sup>2 - 1\<close>.
\<close>

definition digit_value :: "char \<Rightarrow> nat option" where
  "digit_value c = map_of (zip ''0123456789'' [0, 1, 2, 3, 4, 5, 6, 7, 8, 9]) c"

definition decimal_value :: "string \<Rightarrow> nat" where
  "decimal_value s =
     foldl (\<lambda>n c. 10 * n + (case digit_value c of None \<Rightarrow> 0 | Some d \<Rightarrow> d)) 0 s"

definition is_array_index :: "string \<Rightarrow> bool" where
  "is_array_index s \<longleftrightarrow>
     s \<noteq> [] \<and> list_all (\<lambda>c. digit_value c \<noteq> None) s \<and>
     (length s = 1 \<or> \<not> startsWith s ''0'') \<and> decimal_value s < 4294967295"

definition Object_entries :: "(string \<times> 'v) list \<Rightarrow> (string \<times> 'v) list" where
  "Object_entries props =
     sort_key (\<lambda>e. decimal_value (fst e)) (filter (\<lambda>e. is_array_index (fst e)) props)
     @ filter (\<lambda>e. \<not> is_array_index (fst e)) props"

text \<open>The own property \<^verbatim>\<open>name\<close> of a supplied input object.\<close>

definition input_lookup :: "WorkflowInput \<Rightarrow> string \<Rightarrow> string option" where
  "input_lookup inputs name = map_of (map (\<lambda>e. (key_name (fst e), snd e)) inputs) name"

text \<open>
  \<^verbatim>\<open>inputs[name]\<close> reads the own property, and a name that the object does not own is
  read from \<^verbatim>\<open>Object.prototype\<close>, whose properties are functions, and the prototype itself
  under \<^verbatim>\<open>__proto__\<close>.
\<close>

definition object_prototype_names :: "string list" where
  "object_prototype_names =
     [''constructor'', ''hasOwnProperty'', ''isPrototypeOf'', ''propertyIsEnumerable'',
      ''toLocaleString'', ''toString'', ''valueOf'', ''__proto__'', ''__defineGetter__'',
      ''__defineSetter__'', ''__lookupGetter__'', ''__lookupSetter__'']"

datatype property = Absent | Own string | Inherited

definition input_get :: "WorkflowInput \<Rightarrow> string \<Rightarrow> property" where
  "input_get inputs name =
     (case input_lookup inputs name of
        Some v \<Rightarrow> Own v
      | None \<Rightarrow> if name \<in> set object_prototype_names then Inherited else Absent)"

text \<open>A value that is absent or the empty string is not truthy; a function or an object
  is.\<close>

definition truthy :: "string option \<Rightarrow> bool" where
  "truthy v = (case v of None \<Rightarrow> False | Some s \<Rightarrow> s \<noteq> [])"

fun property_truthy :: "property \<Rightarrow> bool" where
  "property_truthy Absent = False"
| "property_truthy (Own s) = (s \<noteq> [])"
| "property_truthy Inherited = True"

definition requiredInputs :: "ActionConfig \<Rightarrow> string list" where
  "requiredInputs actionConfig =
     map fst (filter (\<lambda>e. required (snd e)) (Object_entries (action_inputs actionConfig)))"

definition missing_message :: "string \<Rightarrow> string" where
  "missing_message requiredInput = ''Missing required input: '' @ requiredInput"

fun check_required :: "WorkflowInput \<Rightarrow> string list \<Rightarrow> string list \<Rightarrow> string list" where
  "check_required inputs [] errors = errors"
| "check_required inputs (requiredInput # rest) errors =
     check_required inputs rest
       (if \<not> property_truthy (input_get inputs requiredInput)
        then errors @ [missing_message requiredInput] else errors)"

definition validateInputs :: "ActionConfig \<Rightarrow> WorkflowInput \<Rightarrow> string list" where
  "validateInputs actionConfig inputs = check_required inputs (requiredInputs actionConfig) []"

definition getStepByName :: "ActionConfig \<Rightarrow> string \<Rightarrow> WorkflowStep option" where
  "getStepByName actionConfig stepName =
     find (\<lambda>step. step_name step = stepName) (runs_steps (action_runs actionConfig))"

definition getStepById :: "ActionConfig \<Rightarrow> string \<Rightarrow> WorkflowStep option" where
  "getStepById actionConfig stepId =
     find (\<lambda>step. step_id step = Some stepId) (runs_steps (action_runs actionConfig))"

definition validateStepConditions :: "ActionConfig \<Rightarrow> string \<Rightarrow> (string \<rightharpoonup> string) \<Rightarrow> bool" where
  "validateStepConditions actionConfig stepName outs =
     (case getStepByName actionConfig stepName of
        None \<Rightarrow> True
      | Some step \<Rightarrow>
          (case step_if step of
             None \<Rightarrow> True
           | Some condition \<Rightarrow>
               if condition = [] then True
               else
                 (case match_condition condition of
                    Some (stepId, outputName, expectedValue) \<Rightarrow>
                      outs (''steps.'' @ stepId @ ''.outputs.'' @ outputName) = Some expectedValue
                  | None \<Rightarrow> True)))"

section \<open>YamlParser\<close>

text \<open>
  The interfaces \<^verbatim>\<open>ActionConfig\<close> and \<^verbatim>\<open>WorkflowConfig\<close> of the parser are casts of what
  the YAML library returns, and the cache holds both kinds under one key space. A parsed
  document is therefore one record in which every field the parser reads may be absent.
\<close>

record ConfigStep =
  cs_name :: string
  cs_id :: "string option"
  cs_shell :: "string option"
  cs_run :: "string option"
  cs_uses :: "string option"
  cs_if :: "string option"
  cs_with :: "(string \<times> string) list option"

record ConfigRuns =
  cr_using :: "string option"
  cr_steps :: "ConfigStep list option"

record Trigger =
  branches :: "string list option"
  branches_ignore :: "string list option"

record Strategy =
  matrix :: "(string \<times> string list) list option"

record Job =
  runs_on :: string
  strategy :: "Strategy option"
  job_steps :: "ConfigStep list"

record ParsedConfig =
  cfg_name :: "string option"
  cfg_description :: "string option"
  cfg_author :: "string option"
  cfg_inputs :: "(string \<times> InputConfig) list option"
  cfg_runs :: "ConfigRuns option"
  cfg_on :: "(string \<times> Trigger) list option"
  cfg_permissions :: "(string \<times> string) list option"
  cfg_jobs :: "(string \<times> Job) list option"

datatype parse_error =
    ReadError
  | YamlError
  | TypeError
  | ConfigError string

text \<open>
  The file system and the YAML library, as the parser sees them: \<open>readFileSync\<close> gives
  the content of a file or fails; \<open>yaml_parse\<close> fails, or gives \<^verbatim>\<open>null\<close> (\<open>Some None\<close>),
  or gives a document; the two default paths are what \<^verbatim>\<open>path.join\<close> makes of the working
  directory.
\<close>

record Env =
  readFileSync :: "string \<Rightarrow> string option"
  yaml_parse :: "string \<Rightarrow> ParsedConfig option option"
  default_action_path :: string
  default_workflow_path :: string

text \<open>
  What \<open>yaml_parse\<close> returns lives at an address; two values are the same object when
  their addresses are equal. The parser's state is its cache (a \<^verbatim>\<open>Map\<close>, entries in insertion
  order), together with the list of the paths handed to \<open>readFileSync\<close> so far and the next
  free address.
\<close>

type_synonym config_ref = "nat \<times> ParsedConfig option"

record YamlParser =
  cache :: "(string \<times> config_ref) list"
  file_reads :: "string list"
  next_address :: nat

definition new_YamlParser :: YamlParser where
  "new_YamlParser = \<lparr>cache = [], file_reads = [], next_address = 0\<rparr>"

definition validateActionConfig :: "ParsedConfig option \<Rightarrow> parse_error + unit" where
  "validateActionConfig parsed =
     (case parsed of
        None \<Rightarrow> Inl TypeError
      | Some config \<Rightarrow>
          if \<not> truthy (cfg_name config) then Inl (ConfigError ''Action must have a name'')
          else if \<not> truthy (cfg_description config)
          then Inl (ConfigError ''Action must have a description'')
          else
            (case cfg_runs config of
               None \<Rightarrow> Inl (ConfigError ''Action must use composite runs'')
             | Some runs \<Rightarrow>
                 if cr_using runs \<noteq> Some ''composite''
                 then Inl (ConfigError ''Action must use composite runs'')
                 else
                   (case cr_steps runs of
                      None \<Rightarrow> Inl (ConfigError ''Action must have at least one step'')
                    | Some steps \<Rightarrow>
                        if length steps = 0
                        then Inl (ConfigError ''Action must have at least one step'')
                        else Inr ())))"

definition validateWorkflowConfig :: "ParsedConfig option \<Rightarrow> parse_error + unit" where
  "validateWorkflowConfig parsed =
     (case parsed of
        None \<Rightarrow> Inl TypeError
      | Some config \<Rightarrow>
          if \<not> truthy (cfg_name config) then Inl (ConfigError ''Workflow must have a name'')
          else
            (case cfg_on config of
               None \<Rightarrow> Inl (ConfigError ''Workflow must have triggers'')
             | Some triggers \<Rightarrow>
                 (case cfg_jobs config of
                    None \<Rightarrow> Inl (ConfigError ''Workflow must have at least one job'')
                  | Some jobs \<Rightarrow>
                      if length jobs = 0
                      then Inl (ConfigError ''Workflow must have at least one job'')
                      else Inr ())))"

text \<open>\<^verbatim>\<open>filePath || default\<close>: an absent or empty path gives the default.\<close>

definition actual_path :: "string \<Rightarrow> string option \<Rightarrow> string" where
  "actual_path dflt filePath =
     (case filePath of None \<Rightarrow> dflt | Some p \<Rightarrow> if p = [] then dflt else p)"

text \<open>The common body of \<^verbatim>\<open>parseActionYaml\<close> and \<^verbatim>\<open>parseWorkflowYaml\<close>, which differ in
  the default path and in the validation.\<close>

definition parse_with ::
  "(ParsedConfig option \<Rightarrow> parse_error + unit) \<Rightarrow> Env \<Rightarrow> string \<Rightarrow> YamlParser
   \<Rightarrow> (parse_error + config_ref) \<times> YamlParser" where
  "parse_with validate env actualPath p =
     (case map_of (cache p) actualPath of
        Some cached \<Rightarrow> (Inr cached, p)
      | None \<Rightarrow>
          (case readFileSync env actualPath of
             None \<Rightarrow> (Inl ReadError, p\<lparr>file_reads := file_reads p @ [actualPath]\<rparr>)
           | Some content \<Rightarrow>
               (case yaml_parse env content of
                  None \<Rightarrow> (Inl YamlError, p\<lparr>file_reads := file_reads p @ [actualPath]\<rparr>)
                | Some parsed \<Rightarrow>
                    (case validate parsed of
                       Inl e \<Rightarrow>
                         (Inl e, p\<lparr>file_reads := file_reads p @ [actualPath],
                                   next_address := Suc (next_address p)\<rparr>)
                     | Inr u \<Rightarrow>
                         (Inr (next_address p, parsed),
                          p\<lparr>cache := Map_set actualPath (next_address p, parsed) (cache p),
                            file_reads := file_reads p @ [actualPath],
                            next_address := Suc (next_address p)\<rparr>)))))"

definition parseActionYaml ::
  "Env \<Rightarrow> string option \<Rightarrow> YamlParser \<Rightarrow> (parse_error + config_ref) \<times> YamlParser" where
  "parseActionYaml env filePath p =
     parse_with validateActionConfig env (actual_path (default_action_path env) filePath) p"

definition parseWorkflowYaml ::
  "Env \<Rightarrow> string option \<Rightarrow> YamlParser \<Rightarrow> (parse_error + config_ref) \<times> YamlParser" where
  "parseWorkflowYaml env filePath p =
     parse_with validateWorkflowConfig env (actual_path (default_workflow_path env) filePath) p"

definition clearCache :: "YamlParser \<Rightarrow> YamlParser" where
  "clearCache p = p\<lparr>cache := []\<rparr>"

definition getCacheSize :: "YamlParser \<Rightarrow> nat" where
  "getCacheSize p = length (cache p)"

record MatrixAnalysis =
  operatingSystems :: "string list"
  nodeVersions :: "string list"
  totalCombinations :: nat

definition no_matrix :: MatrixAnalysis where
  "no_matrix = \<lparr>operatingSystems = [], nodeVersions = [], totalCombinations = 0\<rparr>"

text \<open>\<^verbatim>\<open>matrix.os || []\<close>: an axis that is absent is the empty list.\<close>

definition axis :: "(string \<times> string list) list \<Rightarrow> string \<Rightarrow> string list" where
  "axis m key = (case map_of m key of None \<Rightarrow> [] | Some values \<Rightarrow> values)"

text \<open>
  A JavaScript number is a double. The length of an array is below \<open>2\<^sup>3\<^sup>2\<close> and is a
  double as it is; the product of two lengths is the double nearest to the exact product:
  the exact product when it is below \<open>2\<^sup>5\<^sup>3\<close>, and otherwise the nearest number with 53
  significant bits, the one with the even last bit when two are equally near.
\<close>

fun bit_length :: "nat \<Rightarrow> nat" where
  "bit_length n = (if n = 0 then 0 else Suc (bit_length (n div 2)))"

declare bit_length.simps [simp del]

definition round_to_double :: "nat \<Rightarrow> nat" where
  "round_to_double p =
     (if p < 2 ^ 53 then p
      else
        (let e = bit_length p - 53;
             q = p div 2 ^ e;
             r = p mod 2 ^ e;
             half = 2 ^ (e - 1)
         in if r < half then q * 2 ^ e
            else if half < r then (q + 1) * 2 ^ e
            else (if even q then q else q + 1) * 2 ^ e))"

definition js_multiply :: "nat \<Rightarrow> nat \<Rightarrow> nat" where
  "js_multiply a b = round_to_double (a * b)"

text \<open>The body of \<^verbatim>\<open>analyzeWorkflowMatrix\<close> once the workflow definition is at hand.\<close>

definition matrix_of_config :: "ParsedConfig option \<Rightarrow> parse_error + MatrixAnalysis" where
  "matrix_of_config workflowConfig =
     (case workflowConfig of
        None \<Rightarrow> Inl TypeError
      | Some wc \<Rightarrow>
          (case cfg_jobs wc of
             None \<Rightarrow> Inl TypeError
           | Some jobs \<Rightarrow>
               (case map_of jobs ''test'' of
                  None \<Rightarrow> Inr no_matrix
                | Some testJob \<Rightarrow>
                    (case strategy testJob of
                       None \<Rightarrow> Inr no_matrix
                     | Some strat \<Rightarrow>
                         (case matrix strat of
                            None \<Rightarrow> Inr no_matrix
                          | Some m \<Rightarrow>
                              Inr \<lparr>operatingSystems = axis m ''os'',
                                   nodeVersions = axis m ''node-version'',
                                   totalCombinations =
                                     js_multiply (length (axis m ''os''))
                                       (length (axis m ''node-version''))\<rparr>)))))"

text \<open>\<^verbatim>\<open>config || this.parseWorkflowYaml()\<close>: a definition that is passed is used as it is,
  otherwise the default workflow file is parsed.\<close>

definition analyzeWorkflowMatrix ::
  "Env \<Rightarrow> ParsedConfig option \<Rightarrow> YamlParser \<Rightarrow> (parse_error + MatrixAnalysis) \<times> YamlParser" where
  "analyzeWorkflowMatrix env config p =
     (case config of
        Some c \<Rightarrow> (matrix_of_config (Some c), p)
      | None \<Rightarrow>
          (case parseWorkflowYaml env None p of
             (Inl e, p') \<Rightarrow> (Inl e, p')
           | (Inr workflowConfig, p') \<Rightarrow> (matrix_of_config (snd workflowConfig), p')))"

text \<open>A run of parse calls on one parser: the state after the calls when each of them
  succeeds.\<close>

datatype parse_call = ParseAction "string option" | ParseWorkflow "string option"

fun do_call :: "Env \<Rightarrow> parse_call \<Rightarrow> YamlParser \<Rightarrow> (parse_error + config_ref) \<times> YamlParser" where
  "do_call env (ParseAction filePath) p = parseActionYaml env filePath p"
| "do_call env (ParseWorkflow filePath) p = parseWorkflowYaml env filePath p"

fun call_path :: "Env \<Rightarrow> parse_call \<Rightarrow> string" where
  "call_path env (ParseAction filePath) = actual_path (default_action_path env) filePath"
| "call_path env (ParseWorkflow filePath) = actual_path (default_workflow_path env) filePath"

fun run_calls :: "Env \<Rightarrow> parse_call list \<Rightarrow> YamlParser \<Rightarrow> YamlParser option" where
  "run_calls env [] p = Some p"
| "run_calls env (c # cs) p =
     (case do_call env c p of
        (Inl e, p') \<Rightarrow> None
      | (Inr v, p') \<Rightarrow> run_calls env cs p')"

section \<open>Example objects\<close>

text \<open>The script line of the output example.\<close>

definition result_line :: string where
  "result_line = ''echo \"result=success\" >> $GITHUB_OUTPUT''"

text \<open>A guard of the supported shape, with any white space around the comparison.\<close>

definition shape_guard :: "string \<Rightarrow> string \<Rightarrow> string \<Rightarrow> string \<Rightarrow> string \<Rightarrow> string" where
  "shape_guard stepId outputName ws1 ws2 expectedValue =
     ''steps.'' @ stepId @ ''.outputs.'' @ outputName @ ws1 @ ''=='' @ ws2
       @ [CHR 0x27] @ expectedValue @ [CHR 0x27]"

definition empty_state :: "unit sim_state" where
  "empty_state = \<lparr>mocker = new_WorkflowMocker, world = (), dispatched = []\<rparr>"

definition example_mocker :: "unit WorkflowMocker" where
  "example_mocker =
     setOutput ''steps.test.outputs.result'' ''value''
       (mockCommand ''test-command'' (\<lambda>w. (Returned (JsString ''result''), w)) new_WorkflowMocker)"

definition build_step :: WorkflowStep where
  "build_step =
     \<lparr>step_name = ''Build'', step_id = Some ''build'', step_shell = Some Bash,
      step_run = Some ''echo \"result=success\" >> $GITHUB_OUTPUT'', step_if = None\<rparr>"

definition clone_step :: "Shell \<Rightarrow> WorkflowStep" where
  "clone_step sh =
     \<lparr>step_name = ''Clone'', step_id = Some ''clone'', step_shell = Some sh,
      step_run = Some ''git clone repo'', step_if = None\<rparr>"

definition git_state :: "unit sim_state" where
  "git_state =
     \<lparr>mocker = mockCommand ''git clone'' (\<lambda>w. (Returned (JsObject ''[object Object]''), w)) new_WorkflowMocker,
      world = (), dispatched = []\<rparr>"

text \<open>A step of two commands, and a state in which the first is mocked to throw a given
  value and the second to return.\<close>

definition failing_step :: WorkflowStep where
  "failing_step =
     \<lparr>step_name = ''String Error Step'', step_id = Some ''string-error'', step_shell = Some Bash,
      step_run = Some (''failing-command'' @ [CHR 0x0A] @ ''next-command''), step_if = None\<rparr>"

definition throwing_state :: "js_value \<Rightarrow> unit sim_state" where
  "throwing_state e =
     \<lparr>mocker =
        mockCommand ''next-command'' (\<lambda>w. (Returned (JsBool True), w))
          (mockCommand ''failing-command'' (\<lambda>w. (Thrown e, w)) new_WorkflowMocker),
      world = (), dispatched = []\<rparr>"

text \<open>What \<^verbatim>\<open>Object.create(null)\<close> is: the conversion to a string throws a
  \<^verbatim>\<open>TypeError\<close>.\<close>

definition bare_object :: js_value where
  "bare_object = JsUnconvertible (JsError ''Cannot convert object to primitive value'')"

text \<open>A step whose line appends to the output file without a \<^verbatim>\<open>key=value\<close> pair.\<close>

definition done_step :: WorkflowStep where
  "done_step =
     \<lparr>step_name = ''Done'', step_id = Some ''done'', step_shell = Some Bash,
      step_run = Some ''echo \"done\" >> $GITHUB_OUTPUT'', step_if = None\<rparr>"

definition example_action :: ActionConfig where
  "example_action =
     \<lparr>action_name = ''Deploy'', action_description = ''Deploy docs'', action_author = None,
      action_inputs =
        [(''github-token'',
            \<lparr>input_description = ''token'', required = True, input_default = None\<rparr>),
         (''wrangler-port'',
            \<lparr>input_description = ''port'', required = False, input_default = Some ''8787''\<rparr>),
         (''private-repo'',
            \<lparr>input_description = ''repo'', required = True, input_default = None\<rparr>)],
      action_runs =
        \<lparr>runs_using = ''composite'',
         runs_steps =
           [\<lparr>step_name = ''Always Run'', step_id = None, step_shell = None,
              step_run = Some ''echo \"Always\"'', step_if = None\<rparr>,
            \<lparr>step_name = ''Conditional'', step_id = None, step_shell = None,
              step_run = Some ''echo \"Conditional\"'',
              step_if = Some (shape_guard ''prev'' ''status'' '' '' '' '' ''success'')\<rparr>,
            \<lparr>step_name = ''Invalid Condition'', step_id = None, step_shell = None,
              step_run = Some ''echo \"Test\"'',
              step_if = Some ''invalid condition format''\<rparr>]\<rparr>\<rparr>"

text \<open>An action whose required inputs are declared as \<^verbatim>\<open>token\<close>, \<^verbatim>\<open>constructor\<close> and
  \<^verbatim>\<open>0\<close>, in this order.\<close>

definition required_input :: InputConfig where
  "required_input = \<lparr>input_description = ''needed'', required = True, input_default = None\<rparr>"

definition odd_action :: ActionConfig where
  "odd_action =
     \<lparr>action_name = ''Odd'', action_description = ''Odd names'', action_author = None,
      action_inputs =
        [(''token'', required_input), (''constructor'', required_input), (''0'', required_input)],
      action_runs = \<lparr>runs_using = ''composite'', runs_steps = []\<rparr>\<rparr>"

definition workflow_with_jobs :: "(string \<times> Job) list \<Rightarrow> ParsedConfig" where
  "workflow_with_jobs jobs =
     \<lparr>cfg_name = Some ''Test'', cfg_description = None, cfg_author = None, cfg_inputs = None,
      cfg_runs = None, cfg_on = Some [(''push'', \<lparr>branches = None, branches_ignore = None\<rparr>)],
      cfg_permissions = None, cfg_jobs = Some jobs\<rparr>"

definition matrix_job :: "(string \<times> string list) list option \<Rightarrow> Job" where
  "matrix_job m =
     \<lparr>runs_on = ''${{ matrix.os }}'', strategy = Some \<lparr>matrix = m\<rparr>, job_steps = []\<rparr>"

text \<open>An axis of 94906267 equal values.\<close>

definition big_axis :: "string \<Rightarrow> string list" where
  "big_axis v = replicate 94906267 v"

definition action_doc :: "string option \<Rightarrow> ParsedConfig" where
  "action_doc nm =
     \<lparr>cfg_name = nm, cfg_description = Some ''Deploy docs'', cfg_author = None,
      cfg_inputs = Some [],
      cfg_runs = Some \<lparr>cr_using = Some ''composite'',
        cr_steps = Some [\<lparr>cs_name = ''Check bash availability'', cs_id = Some ''check-bash'',
          cs_shell = Some ''powershell'', cs_run = Some ''try {'', cs_uses = None, cs_if = None,
          cs_with = None\<rparr>]\<rparr>,
      cfg_on = None, cfg_permissions = None, cfg_jobs = None\<rparr>"

text \<open>A file system with a valid action file, a valid workflow file and an action file
  without a name; every other path is unreadable.\<close>

definition example_env :: Env where
  "example_env =
     \<lparr>readFileSync =
        (\<lambda>path. if path = ''/repo/action.yml'' then Some ''action''
               else if path = ''/repo/.github/workflows/test.yml'' then Some ''workflow''
               else if path = ''/repo/nameless.yml'' then Some ''nameless''
               else None),
      yaml_parse =
        (\<lambda>content. if content = ''action'' then Some (Some (action_doc (Some ''Deploy'')))
                  else if content = ''workflow'' then Some (Some (workflow_with_jobs
                    [(''test'', matrix_job None)]))
                  else if content = ''nameless'' then Some (Some (action_doc None))
                  else None),
      default_action_path = ''/repo/action.yml'',
      default_workflow_path = ''/repo/.github/workflows/test.yml''\<rparr>"

section \<open>Simulating the output example\<close>

lemma replace_all_result_line: "replace_all key val pre result_line = result_line"
  by (simp add: result_line_def input_token_at_def lit_def)

lemma interpolate_result_line: "interpolate inputs result_line = result_line"
  by (induction inputs) (simp_all add: replace_all_result_line)

lemma split_result_line: "split_lines result_line = [result_line]"
  by (simp add: result_line_def split_lines_def)

lemma trim_result_line: "trim result_line = result_line"
  by (simp add: result_line_def trim_def is_whitespace_def)

lemma includes_result_line:
  "includes_str result_line ''echo''" "includes_str result_line ''GITHUB_OUTPUT''"
  by (simp_all add: result_line_def)

lemma match_result_line: "match_output bash_sink result_line = Some (''result'', ''success'')"
  by (simp add: result_line_def match_output_def bash_sink_def output_regex_at_def lit_def
      is_line_terminator_def)

lemma nonempty_result_line: "result_line \<noteq> []" "\<not> startsWith result_line ''#''"
  by (simp_all add: result_line_def)

lemma process_result_line:
  "step_shell step \<noteq> Some Powershell \<Longrightarrow>
   process_line step result_line st = (None, record_output step ''result'' ''success'' st)"
  by (simp add: process_line_def trim_result_line includes_result_line match_result_line
      nonempty_result_line)

text \<open>
  C1. A step with id \<^verbatim>\<open>build\<close> whose shell is not \<^verbatim>\<open>powershell\<close> and whose script is the one
  line \<^verbatim>\<open>echo "result=success" >> $GITHUB_OUTPUT\<close> is simulated with success, whatever the
  inputs, the mocker and the state of its handlers are, and the outputs returned hold
  \<^verbatim>\<open>success\<close> under the key \<^verbatim>\<open>steps.build.outputs.result\<close>.
\<close>

theorem simulate_output_example:
  assumes "step_shell step \<noteq> Some Powershell"
    and "step_id step = Some ''build''"
    and "step_run step = Some ''echo \"result=success\" >> $GITHUB_OUTPUT''"
  shows "\<exists>res outs. fst (simulateWorkflowStep step inputs st) = Returns res \<and>
           success res \<and> result_outputs res = Some outs \<and>
           outs ''steps.build.outputs.result'' = Some ''success''"
proof -
  have run: "step_run step = Some result_line"
    using assms(3) by (simp add: result_line_def)
  have "simulateWorkflowStep step inputs st =
        (Returns \<lparr>success = True,
          result_outputs =
            Some (step_outputs step (mocker (record_output step ''result'' ''success'' st))),
          error = None\<rparr>, record_output step ''result'' ''success'' st)"
    using assms(1) run
    by (simp add: simulateWorkflowStep_def interpolate_result_line split_result_line
        process_result_line nonempty_result_line)
  moreover have "step_outputs step (mocker (record_output step ''result'' ''success'' st))
                   ''steps.build.outputs.result'' = Some ''success''"
    using assms(2)
    by (simp add: step_outputs_def record_output_def setOutput_def getOutputs_def
        output_key_def id_text_def)
  ultimately show ?thesis by simp
qed

theorem simulate_output_example_witness:
  "step_shell build_step \<noteq> Some Powershell \<and>
   step_id build_step = Some ''build'' \<and>
   (\<exists>res outs. fst (simulateWorkflowStep build_step [(GithubToken, ''t'')] empty_state)
             = Returns res \<and>
           success res \<and> result_outputs res = Some outs \<and>
           outs ''steps.build.outputs.result'' = Some ''success'')"
  using simulate_output_example [of build_step "[(GithubToken, ''t'')]" empty_state]
  by (simp add: build_step_def)

section \<open>The loop over the lines\<close>

lemma record_output_frame:
  "world (record_output step k v st) = world st"
  "dispatched (record_output step k v st) = dispatched st"
  "mockedCommands (mocker (record_output step k v st)) = mockedCommands (mocker st)"
  by (simp_all add: record_output_def setOutput_def)

lemma process_line_forwarded:
  assumes "step_shell step \<noteq> Some Powershell" "forwarded (trim line)"
  shows "process_line step line st =
     (case executeCommand (trim line) (mocker st) (world st) of
        (Returned v, w) \<Rightarrow> (None, st\<lparr>world := w, dispatched := dispatched st @ [trim line]\<rparr>)
      | (Thrown e, w) \<Rightarrow> (Some e, st\<lparr>world := w, dispatched := dispatched st @ [trim line]\<rparr>))"
  using assms by (auto simp: process_line_def Let_def forwarded_def)

lemma process_line_not_forwarded:
  assumes "step_shell step \<noteq> Some Powershell" "\<not> forwarded (trim line)"
  shows "fst (process_line step line st) = None \<and>
         dispatched (snd (process_line step line st)) = dispatched st"
  using assms
  by (auto simp: process_line_def Let_def forwarded_def record_output_frame split: option.splits)

lemma process_line_dispatched:
  assumes "step_shell step \<noteq> Some Powershell"
  shows "dispatched (snd (process_line step line st)) =
           dispatched st @ (if forwarded (trim line) then [trim line] else [])"
proof (cases "forwarded (trim line)")
  case True
  then show ?thesis
    using process_line_forwarded [OF assms True, of st]
    by (auto split: prod.splits outcome.splits)
next
  case False
  then show ?thesis using process_line_not_forwarded [OF assms False, of st] by simp
qed

lemma run_lines_append:
  "run_lines step (pre @ post) st =
     (case run_lines step pre st of
        (Some e, st') \<Rightarrow> (Some e, st')
      | (None, st') \<Rightarrow> run_lines step post st')"
  by (induction pre arbitrary: st) (auto split: prod.splits option.splits)

lemma run_lines_dispatched:
  assumes "step_shell step \<noteq> Some Powershell"
  shows "(\<exists>n. dispatched (snd (run_lines step lines st)) =
              dispatched st @ take n (filter forwarded (map trim lines))) \<and>
         (fst (run_lines step lines st) = None \<longrightarrow>
            dispatched (snd (run_lines step lines st)) =
              dispatched st @ filter forwarded (map trim lines))"
proof (induction lines arbitrary: st)
  case Nil
  then show ?case by simp
next
  case (Cons line lines)
  obtain r st1 where pl: "process_line step line st = (r, st1)"
    by (cases "process_line step line st")
  have d1: "dispatched st1 = dispatched st @ (if forwarded (trim line) then [trim line] else [])"
    using process_line_dispatched [OF assms, of line st] pl by simp
  show ?case
  proof (cases r)
    case (Some e)
    then have rl: "run_lines step (line # lines) st = (Some e, st1)" using pl by simp
    have fw: "forwarded (trim line)"
      using process_line_not_forwarded [OF assms, of line st] pl Some by auto
    have "dispatched st1 =
            dispatched st @ take 1 (filter forwarded (map trim (line # lines)))"
      using d1 fw by simp
    then have "\<exists>n. dispatched (snd (run_lines step (line # lines) st)) =
              dispatched st @ take n (filter forwarded (map trim (line # lines)))"
      using rl by (intro exI [of _ 1]) simp
    then show ?thesis using rl by simp
  next
    case None
    then have rl: "run_lines step (line # lines) st = run_lines step lines st1" using pl by simp
    have ih: "(\<exists>n. dispatched (snd (run_lines step lines st1)) =
              dispatched st1 @ take n (filter forwarded (map trim lines))) \<and>
         (fst (run_lines step lines st1) = None \<longrightarrow>
            dispatched (snd (run_lines step lines st1)) =
              dispatched st1 @ filter forwarded (map trim lines))"
      by (rule Cons.IH)
    from ih have ex: "\<exists>n. dispatched (snd (run_lines step lines st1)) =
              dispatched st1 @ take n (filter forwarded (map trim lines))"
      by (rule conjunct1)
    from ih have full: "fst (run_lines step lines st1) = None \<longrightarrow>
            dispatched (snd (run_lines step lines st1)) =
              dispatched st1 @ filter forwarded (map trim lines)"
      by (rule conjunct2)
    from ex obtain n where
      n: "dispatched (snd (run_lines step lines st1)) =
            dispatched st1 @ take n (filter forwarded (map trim lines))" ..
    have "dispatched (snd (run_lines step (line # lines) st)) =
            dispatched st @ take (if forwarded (trim line) then Suc n else n)
              (filter forwarded (map trim (line # lines)))"
      using rl n d1 by simp
    moreover have "fst (run_lines step (line # lines) st) = None \<longrightarrow>
            dispatched (snd (run_lines step (line # lines) st)) =
              dispatched st @ filter forwarded (map trim (line # lines))"
      using rl full d1 by simp
    ultimately show ?thesis by (intro conjI exI)
  qed
qed

lemma simulate_run:
  assumes "step_run step = Some run" "run \<noteq> []"
  shows "snd (simulateWorkflowStep step inputs st) =
           snd (run_lines step (split_lines (interpolate inputs run)) st)"
    and "(\<exists>res. fst (simulateWorkflowStep step inputs st) = Returns res \<and> success res) \<longleftrightarrow>
           fst (run_lines step (split_lines (interpolate inputs run)) st) = None"
    and "fst (run_lines step (split_lines (interpolate inputs run)) st) = None \<Longrightarrow>
           fst (simulateWorkflowStep step inputs st) =
             Returns \<lparr>success = True,
               result_outputs = Some (step_outputs step
                 (mocker (snd (run_lines step (split_lines (interpolate inputs run)) st)))),
               error = None\<rparr>"
  using assms
  by (auto simp: simulateWorkflowStep_def split: prod.splits option.splits sum.splits)

lemma trim_plain:
  "trim ''failing-command'' = ''failing-command''"
  "trim ''next-command'' = ''next-command''"
  "trim ''git clone repo'' = ''git clone repo''"
  "trim ''echo \"done\" >> $GITHUB_OUTPUT'' = ''echo \"done\" >> $GITHUB_OUTPUT''"
  by (simp_all add: trim_def is_whitespace_def)

lemma forwarded_plain:
  "forwarded ''failing-command''"
  "forwarded ''next-command''"
  "forwarded ''git clone repo''"
  "\<not> forwarded ''echo \"done\" >> $GITHUB_OUTPUT''"
  by (simp_all add: forwarded_def)

section \<open>A handler that throws\<close>

lemma throwing_step:
  "step_run failing_step = Some (''failing-command'' @ [CHR 0x0A] @ ''next-command'')"
  "step_shell failing_step \<noteq> Some Powershell"
  "split_lines (interpolate [] (''failing-command'' @ [CHR 0x0A] @ ''next-command''))
     = [] @ ''failing-command'' # [''next-command'']"
  "forwarded (trim ''failing-command'')"
  by (simp_all add: failing_step_def split_lines_def trim_plain forwarded_plain)

lemma throwing_handler:
  "find_handler (trim ''failing-command'') (mockedCommands (mocker (throwing_state e)))
     = Some (\<lambda>w. (Thrown e, w))"
  "(throwing_state e)\<lparr>world := (),
       dispatched := dispatched (throwing_state e) @ [''failing-command'']\<rparr>
     = (throwing_state e)\<lparr>dispatched := [''failing-command'']\<rparr>"
  by (simp_all add: trim_plain throwing_state_def mockCommand_def new_WorkflowMocker_def)

text \<open>
  C2, as stated, fails. The first line of the step is handed to \<^verbatim>\<open>executeCommand\<close>, its
  handler throws an object that has no conversion to a string, and the simulation does
  not return a result: the \<^verbatim>\<open>TypeError\<close> of the conversion in the \<^verbatim>\<open>catch\<close> block leaves the
  function.
\<close>

theorem unconvertible_failure_is_raised:
  "step_shell failing_step \<noteq> Some Powershell \<and>
   step_run failing_step = Some (''failing-command'' @ [CHR 0x0A] @ ''next-command'') \<and>
   fst (executeCommand ''failing-command'' (mocker (throwing_state bare_object)) ())
     = Thrown bare_object \<and>
   fst (simulateWorkflowStep failing_step [] (throwing_state bare_object))
     = Raises (JsError ''Cannot convert object to primitive value'')"
proof -
  have "executeCommand ''failing-command'' (mocker (throwing_state bare_object)) ()
          = (Thrown bare_object, ())"
    using throwing_handler(1) [of bare_object] by (simp add: executeCommand_def trim_plain)
  moreover have "world (throwing_state bare_object) = ()"
    by simp
  ultimately have "process_line failing_step ''failing-command'' (throwing_state bare_object) =
      (Some bare_object, (throwing_state bare_object)\<lparr>world := (),
         dispatched := dispatched (throwing_state bare_object) @ [''failing-command'']\<rparr>)"
    using process_line_forwarded [OF throwing_step(2,4), of "throwing_state bare_object"]
    by (simp add: trim_plain)
  then have "fst (simulateWorkflowStep failing_step [] (throwing_state bare_object))
               = Raises (JsError ''Cannot convert object to primitive value'')"
    using throwing_step(3)
    by (simp add: simulateWorkflowStep_def throwing_step(1) bare_object_def)
  moreover have "fst (executeCommand ''failing-command'' (mocker (throwing_state bare_object)) ())
                   = Thrown bare_object"
    using throwing_handler(1) [of bare_object] by (simp add: executeCommand_def trim_plain)
  ultimately show ?thesis using throwing_step(1,2) by simp
qed

text \<open>
  C2, amended. Let a step for a shell other than \<^verbatim>\<open>powershell\<close> have the lines \<open>pre\<close>,
  \<open>line\<close>, \<open>post\<close> after interpolation, let the lines \<open>pre\<close> run without failure, and let
  \<open>line\<close> be handed to \<^verbatim>\<open>executeCommand\<close>, where the handler found for it throws \<open>e\<close>. Then
  the state is the one reached before \<open>line\<close> plus this one call, so nothing of \<open>post\<close> is
  dispatched or recorded. When \<open>e\<close> is an \<^verbatim>\<open>Error\<close>, a string, or a value that has a
  conversion to a string, the simulation returns \<^verbatim>\<open>{success: false, error}\<close> as a value: the
  error is the message of the \<^verbatim>\<open>Error\<close>, the string itself, \<^verbatim>\<open>undefined\<close>, \<^verbatim>\<open>null\<close>,
  \<^verbatim>\<open>true\<close>, \<^verbatim>\<open>false\<close>, or the text the object converts to. When \<open>e\<close> has no conversion to a
  string, the simulation raises what the conversion throws.
\<close>

theorem handler_failure_stops:
  assumes "step_shell step \<noteq> Some Powershell"
    and "step_run step = Some run" "run \<noteq> []"
    and "split_lines (interpolate inputs run) = pre @ line # post"
    and "run_lines step pre st = (None, st1)"
    and "forwarded (trim line)"
    and "find_handler (trim line) (mockedCommands (mocker st1)) = Some handler"
    and "handler (world st1) = (Thrown e, w)"
  shows "snd (simulateWorkflowStep step inputs st) =
           st1\<lparr>world := w, dispatched := dispatched st1 @ [trim line]\<rparr> \<and>
         fst (simulateWorkflowStep step inputs st) =
           (case e of
              JsError m \<Rightarrow> Returns \<lparr>success = False, result_outputs = None, error = Some m\<rparr>
            | JsString s \<Rightarrow> Returns \<lparr>success = False, result_outputs = None, error = Some s\<rparr>
            | JsUndefined \<Rightarrow>
                Returns \<lparr>success = False, result_outputs = None, error = Some ''undefined''\<rparr>
            | JsNull \<Rightarrow>
                Returns \<lparr>success = False, result_outputs = None, error = Some ''null''\<rparr>
            | JsBool b \<Rightarrow>
                Returns \<lparr>success = False, result_outputs = None,
                  error = Some (if b then ''true'' else ''false'')\<rparr>
            | JsObject t \<Rightarrow> Returns \<lparr>success = False, result_outputs = None, error = Some t\<rparr>
            | JsUnconvertible x \<Rightarrow> Raises x)"
proof -
  have "executeCommand (trim line) (mocker st1) (world st1) = (Thrown e, w)"
    using assms(7,8) by (simp add: executeCommand_def)
  then have "process_line step line st1 =
      (Some e, st1\<lparr>world := w, dispatched := dispatched st1 @ [trim line]\<rparr>)"
    using process_line_forwarded [OF assms(1,6), of st1] by simp
  then have rl: "run_lines step (split_lines (interpolate inputs run)) st =
      (Some e, st1\<lparr>world := w, dispatched := dispatched st1 @ [trim line]\<rparr>)"
    using assms(4,5) by (simp add: run_lines_append)
  show ?thesis
    using assms(2,3) rl by (cases e) (simp_all add: simulateWorkflowStep_def)
qed

theorem handler_failure_stops_witness:
  "simulateWorkflowStep failing_step [] (throwing_state (JsString ''boom'')) =
     (Returns \<lparr>success = False, result_outputs = None, error = Some ''boom''\<rparr>,
      (throwing_state (JsString ''boom''))\<lparr>dispatched := [''failing-command'']\<rparr>) \<and>
   simulateWorkflowStep failing_step [] (throwing_state (JsError ''Command not found'')) =
     (Returns \<lparr>success = False, result_outputs = None, error = Some ''Command not found''\<rparr>,
      (throwing_state (JsError ''Command not found''))\<lparr>dispatched := [''failing-command'']\<rparr>) \<and>
   simulateWorkflowStep failing_step [] (throwing_state JsNull) =
     (Returns \<lparr>success = False, result_outputs = None, error = Some ''null''\<rparr>,
      (throwing_state JsNull)\<lparr>dispatched := [''failing-command'']\<rparr>) \<and>
   simulateWorkflowStep failing_step [] (throwing_state (JsBool False)) =
     (Returns \<lparr>success = False, result_outputs = None, error = Some ''false''\<rparr>,
      (throwing_state (JsBool False))\<lparr>dispatched := [''failing-command'']\<rparr>) \<and>
   simulateWorkflowStep failing_step [] (throwing_state (JsObject ''[object Object]'')) =
     (Returns \<lparr>success = False, result_outputs = None, error = Some ''[object Object]''\<rparr>,
      (throwing_state (JsObject ''[object Object]''))\<lparr>dispatched := [''failing-command'']\<rparr>)"
proof -
  have pre: "run_lines failing_step [] (throwing_state e) = (None, throwing_state e)" for e
    by simp
  have t: "(\<lambda>w. (Thrown e, w)) (world (throwing_state e)) = (Thrown e, ())" for e
    by simp
  note inst = handler_failure_stops
    [OF throwing_step(2) throwing_step(1) _ throwing_step(3) pre throwing_step(4)
      throwing_handler(1) t]
  have 1: "simulateWorkflowStep failing_step [] (throwing_state (JsString ''boom'')) =
     (Returns \<lparr>success = False, result_outputs = None, error = Some ''boom''\<rparr>,
      (throwing_state (JsString ''boom''))\<lparr>dispatched := [''failing-command'']\<rparr>)"
    using inst [of "JsString ''boom''"] throwing_handler(2) [of "JsString ''boom''"]
    by (simp add: trim_plain prod_eq_iff)
  have 2: "simulateWorkflowStep failing_step [] (throwing_state (JsError ''Command not found'')) =
     (Returns \<lparr>success = False, result_outputs = None, error = Some ''Command not found''\<rparr>,
      (throwing_state (JsError ''Command not found''))\<lparr>dispatched := [''failing-command'']\<rparr>)"
    using inst [of "JsError ''Command not found''"]
      throwing_handler(2) [of "JsError ''Command not found''"]
    by (simp add: trim_plain prod_eq_iff)
  have 3: "simulateWorkflowStep failing_step [] (throwing_state JsNull) =
     (Returns \<lparr>success = False, result_outputs = None, error = Some ''null''\<rparr>,
      (throwing_state JsNull)\<lparr>dispatched := [''failing-command'']\<rparr>)"
    using inst [of JsNull] throwing_handler(2) [of JsNull]
    by (simp add: trim_plain prod_eq_iff)
  have 4: "simulateWorkflowStep failing_step [] (throwing_state (JsBool False)) =
     (Returns \<lparr>success = False, result_outputs = None, error = Some ''false''\<rparr>,
      (throwing_state (JsBool False))\<lparr>dispatched := [''failing-command'']\<rparr>)"
    using inst [of "JsBool False"] throwing_handler(2) [of "JsBool False"]
    by (simp add: trim_plain prod_eq_iff)
  have 5: "simulateWorkflowStep failing_step [] (throwing_state (JsObject ''[object Object]'')) =
     (Returns \<lparr>success = False, result_outputs = None, error = Some ''[object Object]''\<rparr>,
      (throwing_state (JsObject ''[object Object]''))\<lparr>dispatched := [''failing-command'']\<rparr>)"
    using inst [of "JsObject ''[object Object]''"]
      throwing_handler(2) [of "JsObject ''[object Object]''"]
    by (simp add: trim_plain prod_eq_iff)
  show ?thesis using 1 2 3 4 5 by blast
qed

section \<open>The lines that reach the dispatcher\<close>

text \<open>
  C3, as stated, fails. The one line \<^verbatim>\<open>echo "done" >> $GITHUB_OUTPUT\<close> of a \<^verbatim>\<open>bash\<close> step is
  not empty, is no comment and does not match the output pattern; the simulation, on a
  mocker without any mock, succeeds and hands no line to the dispatcher.
\<close>

theorem unmatched_output_line_not_forwarded:
  "step_shell done_step \<noteq> Some Powershell \<and>
   step_run done_step = Some ''echo \"done\" >> $GITHUB_OUTPUT'' \<and>
   map trim (split_lines (interpolate [] ''echo \"done\" >> $GITHUB_OUTPUT''))
     = [''echo \"done\" >> $GITHUB_OUTPUT''] \<and>
   ''echo \"done\" >> $GITHUB_OUTPUT'' \<noteq> [] \<and>
   \<not> startsWith ''echo \"done\" >> $GITHUB_OUTPUT'' ''#'' \<and>
   match_output bash_sink ''echo \"done\" >> $GITHUB_OUTPUT'' = None \<and>
   fst (simulateWorkflowStep done_step [] empty_state) =
     Returns \<lparr>success = True, result_outputs = Some (step_outputs done_step (mocker empty_state)),
       error = None\<rparr> \<and>
   dispatched (snd (simulateWorkflowStep done_step [] empty_state)) = []"
proof -
  have m: "match_output bash_sink ''echo \"done\" >> $GITHUB_OUTPUT'' = None"
    by (simp add: match_output_def bash_sink_def output_regex_at_def lit_def
        is_line_terminator_def)
  have l: "split_lines ''echo \"done\" >> $GITHUB_OUTPUT'' = [''echo \"done\" >> $GITHUB_OUTPUT'']"
    by (simp add: split_lines_def)
  have shell: "step_shell done_step \<noteq> Some Powershell"
    and run: "step_run done_step = Some ''echo \"done\" >> $GITHUB_OUTPUT''"
    by (simp_all add: done_step_def)
  have i: "includes_str ''echo \"done\" >> $GITHUB_OUTPUT'' ''echo''"
    "includes_str ''echo \"done\" >> $GITHUB_OUTPUT'' ''GITHUB_OUTPUT''"
    by simp_all
  have pl: "process_line done_step ''echo \"done\" >> $GITHUB_OUTPUT'' empty_state
              = (None, empty_state)"
    using shell i m by (simp add: process_line_def Let_def trim_plain)
  then have rl: "run_lines done_step [''echo \"done\" >> $GITHUB_OUTPUT''] empty_state
                   = (None, empty_state)"
    by simp
  have "fst (simulateWorkflowStep done_step [] empty_state) =
     Returns \<lparr>success = True, result_outputs = Some (step_outputs done_step (mocker empty_state)),
       error = None\<rparr>"
    "dispatched (snd (simulateWorkflowStep done_step [] empty_state)) = []"
    using simulate_run(1,3) [OF run, of "[]" empty_state] rl
    by (simp_all add: l) (simp add: empty_state_def)
  then show ?thesis
    using m l shell run by (simp add: trim_plain)
qed

text \<open>
  C3, amended. For a step of a shell other than \<^verbatim>\<open>powershell\<close>, the lines handed to the
  dispatcher are, in order, the first ones of the trimmed lines of the interpolated script
  that are not empty, are no comment and do not hold both \<^verbatim>\<open>echo\<close> and \<^verbatim>\<open>GITHUB_OUTPUT\<close>;
  when the simulation succeeds they are all of these lines. A line that holds both words
  is never handed to the dispatcher, whether it matches the output pattern or not.
\<close>

theorem forwarded_lines:
  assumes "step_shell step \<noteq> Some Powershell" "step_run step = Some run" "run \<noteq> []"
  shows "(\<exists>n. dispatched (snd (simulateWorkflowStep step inputs st)) =
              dispatched st @
                take n (filter forwarded (map trim (split_lines (interpolate inputs run))))) \<and>
         ((\<exists>res. fst (simulateWorkflowStep step inputs st) = Returns res \<and> success res) \<longrightarrow>
            dispatched (snd (simulateWorkflowStep step inputs st)) =
              dispatched st @
                filter forwarded (map trim (split_lines (interpolate inputs run))))"
  using run_lines_dispatched [OF assms(1), of "split_lines (interpolate inputs run)" st]
    simulate_run(1,2) [OF assms(2,3), of inputs st]
  by simp

theorem forwarded_lines_witness:
  "step_shell (clone_step Bash) \<noteq> Some Powershell \<and>
   step_run (clone_step Bash) = Some ''git clone repo'' \<and>
   (\<exists>res. fst (simulateWorkflowStep (clone_step Bash) [] git_state) = Returns res \<and>
          success res) \<and>
   dispatched (snd (simulateWorkflowStep (clone_step Bash) [] git_state)) = [''git clone repo'']"
proof -
  have hyp: "step_shell (clone_step Bash) \<noteq> Some Powershell"
    "step_run (clone_step Bash) = Some ''git clone repo''" "''git clone repo'' \<noteq> []"
    by (simp_all add: clone_step_def)
  have l: "split_lines ''git clone repo'' = [''git clone repo'']"
    by (simp add: split_lines_def)
  have e: "executeCommand ''git clone repo'' (mocker git_state) (world git_state)
             = (Returned (JsObject ''[object Object]''), ())"
    by (simp add: executeCommand_def git_state_def mockCommand_def new_WorkflowMocker_def)
  have "process_line (clone_step Bash) ''git clone repo'' git_state =
          (None, git_state\<lparr>world := (), dispatched := dispatched git_state @ [''git clone repo'']\<rparr>)"
    using process_line_forwarded [OF hyp(1), of "''git clone repo''" git_state] e
    by (simp add: trim_plain forwarded_plain)
  then have s: "\<exists>res. fst (simulateWorkflowStep (clone_step Bash) [] git_state) = Returns res \<and>
          success res"
    using hyp(2) by (simp add: simulateWorkflowStep_def l)
  have d: "dispatched git_state = []"
    by (simp add: git_state_def)
  have "dispatched (snd (simulateWorkflowStep (clone_step Bash) [] git_state))
          = [''git clone repo'']"
    using forwarded_lines [OF hyp, of "[]" git_state] s d
    by (simp add: l trim_plain forwarded_plain)
  then show ?thesis using s hyp(1,2) by simp
qed

section \<open>Guards\<close>

lemma startsWith_append: "startsWith (p @ r) p"
  by (induction p) simp_all

lemma lit_append: "lit p (p @ r) = Some r"
  by (simp add: lit_def startsWith_append)

lemma lit_mismatch: "c \<noteq> p \<Longrightarrow> lit (p # ps) (c # cs) = None"
  by (simp add: lit_def)

lemma lazy_dot_plus_exact:
  assumes "x \<noteq> []" "\<forall>c \<in> set x. \<not> is_line_terminator c"
    and "\<And>m. 0 < m \<Longrightarrow> m < length x \<Longrightarrow> k (acc @ take m x) (drop m x @ rest) = None"
    and "k (acc @ x) rest = Some r"
  shows "lazy_dot_plus k acc (x @ rest) = Some r"
  using assms
proof (induction x arbitrary: acc)
  case Nil
  then show ?case by simp
next
  case (Cons c x)
  show ?case
  proof (cases "x = []")
    case True
    with Cons.prems(2,4) show ?thesis by simp
  next
    case False
    have fail: "k (acc @ [c]) (x @ rest) = None"
      using Cons.prems(3) [of 1] False by (cases x) simp_all
    have "lazy_dot_plus k (acc @ [c]) (x @ rest) = Some r"
    proof (rule Cons.IH [OF False])
      show "\<forall>c \<in> set x. \<not> is_line_terminator c" using Cons.prems(2) by simp
    next
      fix m assume "0 < m" "m < length x"
      then show "k ((acc @ [c]) @ take m x) (drop m x @ rest) = None"
        using Cons.prems(3) [of "Suc m"] by simp
    next
      show "k ((acc @ [c]) @ x) rest = Some r" using Cons.prems(4) by simp
    qed
    then show ?thesis using Cons.prems(2) fail by simp
  qed
qed

lemma lazy_dot_plus_first:
  assumes "x \<noteq> []" "\<forall>c \<in> set x. \<not> is_line_terminator c"
    and "\<And>m. 0 < m \<Longrightarrow> m < length x \<Longrightarrow> k (take m x) (drop m x @ rest) = None"
    and "k x rest = Some r"
  shows "lazy_dot_plus k [] (x @ rest) = Some r"
  using lazy_dot_plus_exact [of x k "[]" rest r] assms by simp

lemma star_ws_skip:
  assumes "\<forall>c \<in> set w. is_whitespace c" "k (d # rest) = Some r" "\<not> is_whitespace d"
  shows "star_ws k (w @ d # rest) = Some r"
  using assms by (induction w) simp_all

lemma match_condition_shape:
  assumes id: "stepId \<noteq> []" "\<forall>c \<in> set stepId. c \<noteq> CHR ''.'' \<and> \<not> is_line_terminator c"
    and name: "outputName \<noteq> []" "\<forall>c \<in> set outputName. c \<noteq> CHR ''='' \<and> \<not> is_whitespace c"
    and ws: "\<forall>c \<in> set ws1. is_whitespace c" "\<forall>c \<in> set ws2. is_whitespace c"
    and val: "expectedValue \<noteq> []"
      "\<forall>c \<in> set expectedValue. c \<noteq> CHR 0x27 \<and> \<not> is_line_terminator c"
  shows "match_condition (shape_guard stepId outputName ws1 ws2 expectedValue)
           = Some (stepId, outputName, expectedValue)"
proof -
  let ?k3 = "\<lambda>i n. (\<lambda>expectedValue s9. case lit [CHR 0x27] s9 of
                 None \<Rightarrow> None | Some s10 \<Rightarrow> Some (i, n, expectedValue))"
  let ?kq = "\<lambda>i n. (\<lambda>s7. case lit [CHR 0x27] s7 of
                 None \<Rightarrow> None | Some s8 \<Rightarrow> lazy_dot_plus (?k3 i n) [] s8)"
  let ?keq = "\<lambda>i n. (\<lambda>s5. case lit ''=='' s5 of
                 None \<Rightarrow> None | Some s6 \<Rightarrow> star_ws (?kq i n) s6)"
  let ?k2 = "\<lambda>i. (\<lambda>n s4. star_ws (?keq i n) s4)"
  let ?k1 = "\<lambda>i s2. case lit ''.outputs.'' s2 of
                 None \<Rightarrow> None | Some s3 \<Rightarrow> lazy_dot_plus (?k2 i) [] s3"
  let ?tail3 = "[CHR 0x27]"
  let ?tail2 = "ws1 @ ''=='' @ ws2 @ [CHR 0x27] @ expectedValue @ [CHR 0x27]"
  let ?tail1 = "''.outputs.'' @ outputName @ ?tail2"
  have nlt_name: "\<forall>c \<in> set outputName. \<not> is_line_terminator c"
    using name(2) by (auto simp: is_whitespace_def is_line_terminator_def)
  have not_ws: "\<not> is_whitespace (CHR 0x27)" "\<not> is_whitespace CHR ''=''"
    by (simp_all add: is_whitespace_def)
  have g3: "lazy_dot_plus (?k3 i n) [] (expectedValue @ ?tail3) = Some (i, n, expectedValue)" for i n
  proof (rule lazy_dot_plus_first [OF val(1)])
    show "\<forall>c \<in> set expectedValue. \<not> is_line_terminator c" using val(2) by simp
  next
    fix m assume m: "0 < m" "m < length expectedValue"
    then obtain c cs where d: "drop m expectedValue = c # cs"
      by (cases "drop m expectedValue") simp_all
    then have "c \<in> set expectedValue" by (metis in_set_dropD list.set_intros(1))
    then have "c \<noteq> CHR 0x27" using val(2) by simp
    then show "?k3 i n (take m expectedValue) (drop m expectedValue @ ?tail3) = None"
      using d by (simp add: lit_def)
  next
    show "?k3 i n expectedValue ?tail3 = Some (i, n, expectedValue)"
      by (simp add: lit_def)
  qed
  have kq: "?kq i n (CHR 0x27 # expectedValue @ [CHR 0x27]) = Some (i, n, expectedValue)" for i n
    using g3 [of i n] by (simp add: lit_def)
  have keq: "?keq i n (CHR ''='' # CHR ''='' # ws2 @ CHR 0x27 # expectedValue @ [CHR 0x27])
               = Some (i, n, expectedValue)" for i n
  proof -
    have "star_ws (?kq i n) (ws2 @ CHR 0x27 # expectedValue @ [CHR 0x27])
            = Some (i, n, expectedValue)"
      using ws(2) kq [of i n] not_ws(1) by (rule star_ws_skip)
    then show ?thesis by (simp add: lit_def)
  qed
  have k2: "?k2 i outputName ?tail2 = Some (i, outputName, expectedValue)" for i
  proof -
    have "star_ws (?keq i outputName)
            (ws1 @ CHR ''='' # CHR ''='' # ws2 @ CHR 0x27 # expectedValue @ [CHR 0x27])
          = Some (i, outputName, expectedValue)"
      using ws(1) keq [of i outputName] not_ws(2) by (rule star_ws_skip)
    then show ?thesis by simp
  qed
  have g2: "lazy_dot_plus (?k2 i) [] (outputName @ ?tail2) = Some (i, outputName, expectedValue)" for i
  proof (rule lazy_dot_plus_first [OF name(1) nlt_name])
    fix m assume m: "0 < m" "m < length outputName"
    then obtain c cs where d: "drop m outputName = c # cs"
      by (cases "drop m outputName") simp_all
    then have "c \<in> set outputName" by (metis in_set_dropD list.set_intros(1))
    then have "c \<noteq> CHR ''=''" "\<not> is_whitespace c" using name(2) by simp_all
    then show "?k2 i (take m outputName) (drop m outputName @ ?tail2) = None"
      using d by (simp add: lit_def)
  next
    show "?k2 i outputName ?tail2 = Some (i, outputName, expectedValue)"
      using k2 [of i] by simp
  qed
  have g1: "lazy_dot_plus ?k1 [] (stepId @ ?tail1) = Some (stepId, outputName, expectedValue)"
  proof (rule lazy_dot_plus_first [OF id(1)])
    show "\<forall>c \<in> set stepId. \<not> is_line_terminator c" using id(2) by simp
  next
    fix m assume m: "0 < m" "m < length stepId"
    then obtain c cs where d: "drop m stepId = c # cs"
      by (cases "drop m stepId") simp_all
    then have "c \<in> set stepId" by (metis in_set_dropD list.set_intros(1))
    then have "c \<noteq> CHR ''.''" using id(2) by simp
    then show "?k1 (take m stepId) (drop m stepId @ ?tail1) = None"
      using d by (simp add: lit_def)
  next
    show "?k1 stepId ?tail1 = Some (stepId, outputName, expectedValue)"
      using g2 [of stepId] by (simp add: lit_def)
  qed
  have "condition_regex_at (shape_guard stepId outputName ws1 ws2 expectedValue)
          = Some (stepId, outputName, expectedValue)"
    using g1 by (simp add: condition_regex_at_def shape_guard_def lit_def)
  then show ?thesis
    by (simp add: match_condition_def shape_guard_def)
qed

lemma match_condition_empty: "match_condition [] = None"
  by (simp add: match_condition_def condition_regex_at_def lit_def)

text \<open>
  C4. For a step that is found by name: without a guard (or with the empty guard) the
  result is true. With the guard \<^verbatim>\<open>steps.<id>.outputs.<name> == '<value>'\<close>, where the id
  holds no dot, the name no \<^verbatim>\<open>=\<close> and no white space, the value no quote, none of them is
  empty or holds a line terminator, and any white space stands around \<^verbatim>\<open>==\<close>, the result
  is true exactly when the output map holds the value under
  \<^verbatim>\<open>steps.<id>.outputs.<name>\<close>. In general, when the pattern finds three groups in the
  guard, the result is that comparison for the groups found; when the pattern finds
  nothing, the result is true.
\<close>

theorem validateStepConditions_guard:
  assumes "getStepByName actionConfig stepName = Some step"
  shows "(step_if step = None \<or> step_if step = Some [] \<longrightarrow>
            validateStepConditions actionConfig stepName outs) \<and>
         (step_if step = Some (shape_guard stepId outputName wsl wsr expectedValue) \<and>
          stepId \<noteq> [] \<and> (\<forall>c \<in> set stepId. c \<noteq> CHR ''.'' \<and> \<not> is_line_terminator c) \<and>
          outputName \<noteq> [] \<and> (\<forall>c \<in> set outputName. c \<noteq> CHR ''='' \<and> \<not> is_whitespace c) \<and>
          (\<forall>c \<in> set wsl. is_whitespace c) \<and> (\<forall>c \<in> set wsr. is_whitespace c) \<and>
          expectedValue \<noteq> [] \<and>
          (\<forall>c \<in> set expectedValue. c \<noteq> CHR 0x27 \<and> \<not> is_line_terminator c) \<longrightarrow>
            validateStepConditions actionConfig stepName outs =
              (outs (''steps.'' @ stepId @ ''.outputs.'' @ outputName) = Some expectedValue)) \<and>
         (step_if step = Some condition \<and> match_condition condition = Some (ga, gb, gc) \<longrightarrow>
            validateStepConditions actionConfig stepName outs =
              (outs (''steps.'' @ ga @ ''.outputs.'' @ gb) = Some gc)) \<and>
         (step_if step = Some condition \<and> match_condition condition = None \<longrightarrow>
            validateStepConditions actionConfig stepName outs)"
proof (intro conjI impI)
  assume "step_if step = None \<or> step_if step = Some []"
  then show "validateStepConditions actionConfig stepName outs"
    using assms by (auto simp: validateStepConditions_def)
next
  assume a: "step_if step = Some (shape_guard stepId outputName wsl wsr expectedValue) \<and>
          stepId \<noteq> [] \<and> (\<forall>c \<in> set stepId. c \<noteq> CHR ''.'' \<and> \<not> is_line_terminator c) \<and>
          outputName \<noteq> [] \<and> (\<forall>c \<in> set outputName. c \<noteq> CHR ''='' \<and> \<not> is_whitespace c) \<and>
          (\<forall>c \<in> set wsl. is_whitespace c) \<and> (\<forall>c \<in> set wsr. is_whitespace c) \<and>
          expectedValue \<noteq> [] \<and>
          (\<forall>c \<in> set expectedValue. c \<noteq> CHR 0x27 \<and> \<not> is_line_terminator c)"
  then have m: "match_condition (shape_guard stepId outputName wsl wsr expectedValue)
                  = Some (stepId, outputName, expectedValue)"
    by (intro match_condition_shape) simp_all
  have "shape_guard stepId outputName wsl wsr expectedValue \<noteq> []"
    by (simp add: shape_guard_def)
  then show "validateStepConditions actionConfig stepName outs =
              (outs (''steps.'' @ stepId @ ''.outputs.'' @ outputName) = Some expectedValue)"
    using assms a m by (simp add: validateStepConditions_def)
next
  assume a: "step_if step = Some condition \<and> match_condition condition = Some (ga, gb, gc)"
  then have "condition \<noteq> []" using match_condition_empty by auto
  then show "validateStepConditions actionConfig stepName outs =
              (outs (''steps.'' @ ga @ ''.outputs.'' @ gb) = Some gc)"
    using assms a by (simp add: validateStepConditions_def)
next
  assume "step_if step = Some condition \<and> match_condition condition = None"
  then show "validateStepConditions actionConfig stepName outs"
    using assms by (simp add: validateStepConditions_def)
qed

theorem validateStepConditions_guard_witness:
  "validateStepConditions example_action ''Always Run'' Map.empty \<and>
   validateStepConditions example_action ''Conditional''
     [''steps.prev.outputs.status'' \<mapsto> ''success''] \<and>
   \<not> validateStepConditions example_action ''Conditional''
     [''steps.prev.outputs.status'' \<mapsto> ''failure''] \<and>
   \<not> validateStepConditions example_action ''Conditional'' Map.empty \<and>
   validateStepConditions example_action ''Invalid Condition'' Map.empty"
proof -
  have always: "getStepByName example_action ''Always Run'' =
      Some \<lparr>step_name = ''Always Run'', step_id = None, step_shell = None,
            step_run = Some ''echo \"Always\"'', step_if = None\<rparr>"
    by (simp add: getStepByName_def example_action_def)
  have conditional: "getStepByName example_action ''Conditional'' =
      Some \<lparr>step_name = ''Conditional'', step_id = None, step_shell = None,
            step_run = Some ''echo \"Conditional\"'',
            step_if = Some (shape_guard ''prev'' ''status'' '' '' '' '' ''success'')\<rparr>"
    by (simp add: getStepByName_def example_action_def)
  have invalid: "getStepByName example_action ''Invalid Condition'' =
      Some \<lparr>step_name = ''Invalid Condition'', step_id = None, step_shell = None,
            step_run = Some ''echo \"Test\"'', step_if = Some ''invalid condition format''\<rparr>"
    by (simp add: getStepByName_def example_action_def)
  have none: "match_condition ''invalid condition format'' = None"
    by (simp add: match_condition_def condition_regex_at_def lit_def)
  have ok: "(\<forall>c \<in> set ''prev''. c \<noteq> CHR ''.'' \<and> \<not> is_line_terminator c) \<and>
      (\<forall>c \<in> set ''status''. c \<noteq> CHR ''='' \<and> \<not> is_whitespace c) \<and>
      (\<forall>c \<in> set '' ''. is_whitespace c) \<and>
      (\<forall>c \<in> set ''success''. c \<noteq> CHR 0x27 \<and> \<not> is_line_terminator c)"
    by (simp add: is_line_terminator_def is_whitespace_def)
  have 1: "validateStepConditions example_action ''Always Run'' Map.empty"
    using validateStepConditions_guard [OF always] by simp
  have 2: "validateStepConditions example_action ''Conditional'' outs =
             (outs ''steps.prev.outputs.status'' = Some ''success'')" for outs
    using validateStepConditions_guard
      [OF conditional, where stepId = "''prev''" and outputName = "''status''" and wsl = "'' ''"
         and wsr = "'' ''" and expectedValue = "''success''" and outs = outs] ok
    by simp
  have 3: "validateStepConditions example_action ''Invalid Condition'' Map.empty"
    using validateStepConditions_guard
      [OF invalid, where outs = Map.empty and condition = "''invalid condition format''"] none
    by simp
  show ?thesis using 1 3 by (simp add: 2)
qed

section \<open>Required inputs\<close>

lemma check_required_eq:
  "check_required inputs names errors =
     errors @ map missing_message
       (filter (\<lambda>n. \<not> property_truthy (input_get inputs n)) names)"
  by (induction names arbitrary: errors) simp_all

lemma key_name_inj: "key_name a = key_name b \<longleftrightarrow> a = b"
  by (cases a; cases b) simp_all

lemma key_name_not_inherited: "key_name k \<notin> set object_prototype_names"
  by (cases k) (simp_all add: object_prototype_names_def)

lemma input_lookup_Some_key:
  "input_lookup inputs n = Some v \<Longrightarrow> \<exists>k. n = key_name k"
  by (induction inputs) (auto simp: input_lookup_def split: if_splits)

lemma input_get_truthy:
  "property_truthy (input_get inputs n) \<longleftrightarrow>
     n \<in> set object_prototype_names \<or> truthy (input_lookup inputs n)"
proof (cases "input_lookup inputs n")
  case None
  then show ?thesis by (simp add: input_get_def truthy_def)
next
  case (Some v)
  then have "n \<notin> set object_prototype_names"
    using input_lookup_Some_key key_name_not_inherited by blast
  then show ?thesis using Some by (simp add: input_get_def truthy_def)
qed

lemma input_lookup_remove:
  "input_lookup (filter (\<lambda>e. fst e \<noteq> k) inputs) n =
     (if n = key_name k then None else input_lookup inputs n)"
  by (induction inputs) (auto simp: input_lookup_def key_name_inj)

lemma filter_eq_singleton:
  "distinct xs \<Longrightarrow> x \<in> set xs \<Longrightarrow> filter (\<lambda>y. y = x) xs = [x]"
  by (induction xs) (auto simp: filter_empty_conv)

lemma Object_entries_plain:
  assumes "\<forall>e \<in> set props. \<not> is_array_index (fst e)"
  shows "Object_entries props = props"
proof -
  have "filter (\<lambda>e. is_array_index (fst e)) props = []"
    using assms by (simp add: filter_empty_conv)
  moreover have "filter (\<lambda>e. \<not> is_array_index (fst e)) props = props"
    using assms by (simp add: filter_id_conv)
  ultimately show ?thesis by (simp add: Object_entries_def)
qed

lemma distinct_Object_entries:
  assumes "distinct (map fst props)"
  shows "distinct (map fst (Object_entries props))"
proof -
  let ?A = "filter (\<lambda>e. is_array_index (fst e)) props"
  let ?B = "filter (\<lambda>e. \<not> is_array_index (fst e)) props"
  have a: "distinct (map fst ?A)" and b: "distinct (map fst ?B)"
    using assms by (simp_all add: distinct_map_filter)
  have "distinct (map fst (sort_key (\<lambda>e. decimal_value (fst e)) ?A))"
    using a by (simp add: distinct_map)
  moreover have "set (map fst (sort_key (\<lambda>e. decimal_value (fst e)) ?A)) \<inter> set (map fst ?B) = {}"
    by auto
  ultimately show ?thesis using b by (simp add: Object_entries_def)
qed

lemma distinct_requiredInputs:
  "distinct (map fst (action_inputs cfg)) \<Longrightarrow> distinct (requiredInputs cfg)"
  using distinct_Object_entries [of "action_inputs cfg"]
  by (simp add: requiredInputs_def distinct_map_filter)

text \<open>
  C5, as stated, fails. The action declares the required inputs \<^verbatim>\<open>token\<close>, \<^verbatim>\<open>constructor\<close>
  and \<^verbatim>\<open>0\<close> in this order, and the input object supplies nothing. \<^verbatim>\<open>validateInputs\<close> has
  no message for \<^verbatim>\<open>constructor\<close>, which the object inherits, and it has the message for
  \<^verbatim>\<open>0\<close> before the one for \<^verbatim>\<open>token\<close>.
\<close>

theorem validateInputs_inherited_and_reordered:
  "action_inputs odd_action =
     [(''token'', required_input), (''constructor'', required_input), (''0'', required_input)] \<and>
   required required_input \<and>
   input_lookup [] ''constructor'' = None \<and>
   validateInputs odd_action [] =
     [''Missing required input: 0'', ''Missing required input: token'']"
  by (simp add: odd_action_def required_input_def input_lookup_def validateInputs_def
      requiredInputs_def Object_entries_def is_array_index_def digit_value_def
      decimal_value_def input_get_def object_prototype_names_def missing_message_def)

text \<open>
  C5, amended. \<^verbatim>\<open>validateInputs\<close> returns the message \<^verbatim>\<open>Missing required input: <name>\<close>
  once for each input that is declared required, whose name is no property of
  \<^verbatim>\<open>Object.prototype\<close>, and whose supplied value is absent or empty, and nothing else. The
  messages come in the order in which \<^verbatim>\<open>Object.entries\<close> lists the declared inputs, which
  is the order of the declarations when no declared name is an array index. When every
  required input has a value that is not empty the list is empty; and when the names
  declared are distinct, taking one required key out of such an input object gives the
  one message of that key.
\<close>

theorem validateInputs_missing:
  "validateInputs cfg inputs =
     map missing_message
       (filter (\<lambda>n. n \<notin> set object_prototype_names \<and> \<not> truthy (input_lookup inputs n))
          (map fst (filter (\<lambda>e. required (snd e)) (Object_entries (action_inputs cfg))))) \<and>
   ((\<forall>e \<in> set (action_inputs cfg). \<not> is_array_index (fst e)) \<longrightarrow>
      validateInputs cfg inputs =
        map missing_message
          (filter (\<lambda>n. n \<notin> set object_prototype_names \<and> \<not> truthy (input_lookup inputs n))
             (map fst (filter (\<lambda>e. required (snd e)) (action_inputs cfg))))) \<and>
   ((\<forall>n \<in> set (requiredInputs cfg). truthy (input_lookup inputs n)) \<longrightarrow>
      validateInputs cfg inputs = []) \<and>
   (distinct (map fst (action_inputs cfg)) \<and>
    (\<forall>n \<in> set (requiredInputs cfg). truthy (input_lookup inputs n)) \<and>
    key_name k \<in> set (requiredInputs cfg) \<longrightarrow>
      validateInputs cfg (filter (\<lambda>e. fst e \<noteq> k) inputs) = [missing_message (key_name k)])"
proof (intro conjI impI)
  show general: "validateInputs cfg inputs =
     map missing_message
       (filter (\<lambda>n. n \<notin> set object_prototype_names \<and> \<not> truthy (input_lookup inputs n))
          (map fst (filter (\<lambda>e. required (snd e)) (Object_entries (action_inputs cfg)))))"
    by (simp add: validateInputs_def check_required_eq requiredInputs_def input_get_truthy)
  assume "\<forall>e \<in> set (action_inputs cfg). \<not> is_array_index (fst e)"
  then have "Object_entries (action_inputs cfg) = action_inputs cfg"
    by (rule Object_entries_plain)
  then show "validateInputs cfg inputs =
        map missing_message
          (filter (\<lambda>n. n \<notin> set object_prototype_names \<and> \<not> truthy (input_lookup inputs n))
             (map fst (filter (\<lambda>e. required (snd e)) (action_inputs cfg))))"
    using general by simp
next
  assume "\<forall>n \<in> set (requiredInputs cfg). truthy (input_lookup inputs n)"
  then show "validateInputs cfg inputs = []"
    by (simp add: validateInputs_def check_required_eq filter_empty_conv input_get_truthy)
next
  assume a: "distinct (map fst (action_inputs cfg)) \<and>
    (\<forall>n \<in> set (requiredInputs cfg). truthy (input_lookup inputs n)) \<and>
    key_name k \<in> set (requiredInputs cfg)"
  have "filter (\<lambda>n. \<not> property_truthy (input_get (filter (\<lambda>e. fst e \<noteq> k) inputs) n))
          (requiredInputs cfg)
        = filter (\<lambda>n. n = key_name k) (requiredInputs cfg)"
    using a key_name_not_inherited [of k]
    by (intro filter_cong) (auto simp: input_get_truthy input_lookup_remove truthy_def)
  also have "\<dots> = [key_name k]"
    using a by (intro filter_eq_singleton distinct_requiredInputs) simp_all
  finally show "validateInputs cfg (filter (\<lambda>e. fst e \<noteq> k) inputs)
                  = [missing_message (key_name k)]"
    by (simp add: validateInputs_def check_required_eq)
qed

theorem validateInputs_missing_witness:
  "validateInputs example_action [(PrivateRepo, ''o/r''), (GithubToken, ''t'')] = [] \<and>
   validateInputs example_action [(PrivateRepo, ''o/r''), (GithubToken, [])]
     = [''Missing required input: github-token''] \<and>
   validateInputs example_action [] =
     [''Missing required input: github-token'', ''Missing required input: private-repo''] \<and>
   validateInputs example_action
      (filter (\<lambda>e. fst e \<noteq> PrivateRepo) [(PrivateRepo, ''o/r''), (GithubToken, ''t'')])
     = [''Missing required input: private-repo'']"
proof -
  have plain: "\<forall>e \<in> set (action_inputs example_action). \<not> is_array_index (fst e)"
    by (simp add: example_action_def is_array_index_def digit_value_def)
  have req: "requiredInputs example_action = [''github-token'', ''private-repo'']"
    using Object_entries_plain [OF plain]
    by (simp add: requiredInputs_def) (simp add: example_action_def)
  have full: "\<forall>n \<in> set (requiredInputs example_action).
      truthy (input_lookup [(PrivateRepo, ''o/r''), (GithubToken, ''t'')] n)"
    by (simp add: req input_lookup_def truthy_def)
  have dist: "distinct (map fst (action_inputs example_action))"
    by (simp add: example_action_def)
  have mem: "key_name PrivateRepo \<in> set (requiredInputs example_action)"
    by (simp add: req)
  have names: "map fst (filter (\<lambda>e. required (snd e)) (action_inputs example_action))
                 = [''github-token'', ''private-repo'']"
    by (simp add: example_action_def)
  note inst = validateInputs_missing [of example_action]
  have 1: "validateInputs example_action [(PrivateRepo, ''o/r''), (GithubToken, ''t'')] = []"
    using inst [of "[(PrivateRepo, ''o/r''), (GithubToken, ''t'')]"] full by blast
  have 2: "validateInputs example_action [(PrivateRepo, ''o/r''), (GithubToken, [])]
     = [''Missing required input: github-token'']"
    using conjunct1 [OF conjunct2 [OF inst [of "[(PrivateRepo, ''o/r''), (GithubToken, [])]"]]]
      plain
    by (simp add: names input_lookup_def truthy_def missing_message_def
        object_prototype_names_def)
  have 3: "validateInputs example_action [] =
     [''Missing required input: github-token'', ''Missing required input: private-repo'']"
    using conjunct1 [OF conjunct2 [OF inst [of "[]"]]] plain
    by (simp add: names input_lookup_def truthy_def missing_message_def
        object_prototype_names_def)
  have 4: "validateInputs example_action
      (filter (\<lambda>e. fst e \<noteq> PrivateRepo) [(PrivateRepo, ''o/r''), (GithubToken, ''t'')])
     = [''Missing required input: private-repo'']"
    using inst [of "[(PrivateRepo, ''o/r''), (GithubToken, ''t'')]" PrivateRepo] full dist mem
    by (simp add: missing_message_def)
  show ?thesis using 1 2 3 4 by blast
qed

section \<open>The cache of the parser\<close>

lemma map_of_Map_set: "map_of (Map_set k v es) = (map_of es)(k \<mapsto> v)"
  by (induction es) (auto simp: fun_eq_iff)

lemma keys_Map_set_new:
  "map_of es k = None \<Longrightarrow> map fst (Map_set k v es) = map fst es @ [k]"
  by (induction es) (auto split: if_splits)

lemma parse_with_cached:
  "map_of (cache p) path = Some v \<Longrightarrow> parse_with validate env path p = (Inr v, p)"
  by (simp add: parse_with_def)

lemma parse_with_success:
  assumes "parse_with validate env path p = (Inr v, p')"
  shows "map_of (cache p') path = Some v \<and>
         (map_of (cache p) path = Some v \<and> p' = p \<or>
          map_of (cache p) path = None \<and> map fst (cache p') = map fst (cache p) @ [path])"
proof (cases "map_of (cache p) path")
  case (Some cached)
  with assms show ?thesis by (simp add: parse_with_def)
next
  case None
  with assms show ?thesis
    by (auto simp: parse_with_def map_of_Map_set keys_Map_set_new
        split: option.splits sum.splits)
qed

lemma parse_with_failure:
  assumes "parse_with validate env path p = (Inl e, p')"
  shows "cache p' = cache p \<and> map_of (cache p) path = None \<and>
         file_reads p' = file_reads p @ [path]"
  using assms
  by (auto simp: parse_with_def split: option.splits sum.splits)

lemma parse_with_uncached_reads:
  "map_of (cache p) path = None \<Longrightarrow>
   file_reads (snd (parse_with validate env path p)) = file_reads p @ [path]"
  by (simp add: parse_with_def split: option.splits sum.splits)

lemma do_call_parse_with:
  "\<exists>validate. do_call env c p = parse_with validate env (call_path env c) p"
  by (cases c) (auto simp: parseActionYaml_def parseWorkflowYaml_def)

lemma map_of_None_keys: "map_of es k = None \<longleftrightarrow> k \<notin> set (map fst es)"
  by (simp add: map_of_eq_None_iff)

lemma run_calls_keys:
  assumes "run_calls env calls p = Some p'" "distinct (map fst (cache p))"
  shows "distinct (map fst (cache p')) \<and>
         set (map fst (cache p')) = set (map fst (cache p)) \<union> set (map (call_path env) calls)"
  using assms
proof (induction calls arbitrary: p)
  case Nil
  then show ?case by simp
next
  case (Cons c calls)
  obtain validate where pw: "do_call env c p = parse_with validate env (call_path env c) p"
    using do_call_parse_with by blast
  from Cons.prems(1) obtain v p1 where step: "do_call env c p = (Inr v, p1)"
    and rest: "run_calls env calls p1 = Some p'"
    by (auto split: prod.splits sum.splits)
  have s: "map_of (cache p1) (call_path env c) = Some v \<and>
         (map_of (cache p) (call_path env c) = Some v \<and> p1 = p \<or>
          map_of (cache p) (call_path env c) = None \<and>
          map fst (cache p1) = map fst (cache p) @ [call_path env c])"
    using parse_with_success [of validate env "call_path env c" p v p1] step pw by simp
  have d1: "distinct (map fst (cache p1))"
    using s Cons.prems(2) by (auto simp: map_of_None_keys)
  have k1: "set (map fst (cache p1)) = insert (call_path env c) (set (map fst (cache p)))"
  proof -
    consider (hit) "map_of (cache p) (call_path env c) = Some v" "p1 = p"
      | (miss) "map fst (cache p1) = map fst (cache p) @ [call_path env c]"
      using s by blast
    then show ?thesis
    proof cases
      case hit
      then have "call_path env c \<in> set (map fst (cache p))"
        by (metis map_of_None_keys option.distinct(1))
      then show ?thesis using hit(2) by auto
    next
      case miss
      then have "set (map fst (cache p1)) = set (map fst (cache p) @ [call_path env c])"
        by simp
      then show ?thesis by simp
    qed
  qed
  show ?case using Cons.IH [OF rest d1] k1 by auto
qed

lemma parse_action_example:
  "parseActionYaml example_env None new_YamlParser =
     (Inr (0, Some (action_doc (Some ''Deploy''))),
      \<lparr>cache = [(''/repo/action.yml'', (0, Some (action_doc (Some ''Deploy''))))],
       file_reads = [''/repo/action.yml''], next_address = 1\<rparr>)"
  by (simp add: parseActionYaml_def parse_with_def actual_path_def example_env_def
      new_YamlParser_def validateActionConfig_def action_doc_def truthy_def)

lemma parse_nameless_example:
  "parseActionYaml example_env (Some ''/repo/nameless.yml'') new_YamlParser =
     (Inl (ConfigError ''Action must have a name''),
      \<lparr>cache = [], file_reads = [''/repo/nameless.yml''], next_address = 1\<rparr>)"
  by (simp add: parseActionYaml_def parse_with_def actual_path_def example_env_def
      new_YamlParser_def validateActionConfig_def action_doc_def truthy_def)

text \<open>
  C6. After a call of \<^verbatim>\<open>parseActionYaml\<close> that returns a value, the same call returns the
  same object and leaves the parser as it is, so no file is read, whatever the files hold
  by then. After a run of parse calls on a new parser that all return, the size of the
  cache is the number of distinct paths used, a path being the one passed or the default.
  After \<^verbatim>\<open>clearCache\<close> the size is zero.
\<close>

theorem parse_cached:
  "(parseActionYaml env filePath p = (Inr v, p') \<and>
    default_action_path env' = default_action_path env \<longrightarrow>
      parseActionYaml env' filePath p' = (Inr v, p') \<and>
      file_reads (snd (parseActionYaml env' filePath p')) = file_reads p') \<and>
   (run_calls env calls new_YamlParser = Some q \<longrightarrow>
      getCacheSize q = card (set (map (call_path env) calls))) \<and>
   getCacheSize (clearCache p) = 0"
proof (intro conjI impI)
  assume a: "parseActionYaml env filePath p = (Inr v, p') \<and>
    default_action_path env' = default_action_path env"
  then have "map_of (cache p') (actual_path (default_action_path env) filePath) = Some v"
    using parse_with_success
      [of validateActionConfig env "actual_path (default_action_path env) filePath" p v p']
    by (simp add: parseActionYaml_def)
  then show again: "parseActionYaml env' filePath p' = (Inr v, p')"
    using a by (simp add: parseActionYaml_def parse_with_cached)
  then show "file_reads (snd (parseActionYaml env' filePath p')) = file_reads p'"
    by simp
next
  assume "run_calls env calls new_YamlParser = Some q"
  then have "distinct (map fst (cache q)) \<and>
         set (map fst (cache q)) = set (map (call_path env) calls)"
    using run_calls_keys [of env calls new_YamlParser q] by (simp add: new_YamlParser_def)
  then have "card (set (map (call_path env) calls)) = length (map fst (cache q))"
    using distinct_card by metis
  then show "getCacheSize q = card (set (map (call_path env) calls))"
    by (simp add: getCacheSize_def)
next
  show "getCacheSize (clearCache p) = 0"
    by (simp add: getCacheSize_def clearCache_def)
qed

theorem parse_cached_witness:
  "fst (parseActionYaml example_env None new_YamlParser)
     = Inr (0, Some (action_doc (Some ''Deploy''))) \<and>
   parseActionYaml example_env None (snd (parseActionYaml example_env None new_YamlParser))
     = parseActionYaml example_env None new_YamlParser \<and>
   (\<exists>q. run_calls example_env [ParseAction None, ParseWorkflow None, ParseAction None]
          new_YamlParser = Some q \<and> getCacheSize q = 2 \<and> getCacheSize (clearCache q) = 0)"
proof -
  obtain p1 where p1: "parseActionYaml example_env None new_YamlParser =
      (Inr (0, Some (action_doc (Some ''Deploy''))), p1)"
    using parse_action_example by simp
  have again: "parseActionYaml example_env None p1 =
      (Inr (0, Some (action_doc (Some ''Deploy''))), p1)"
    using parse_cached [of example_env None new_YamlParser _ p1 example_env] p1 by simp
  obtain q where q: "run_calls example_env
      [ParseAction None, ParseWorkflow None, ParseAction None] new_YamlParser = Some q"
    by (simp add: parse_action_example)
       (simp add: parseActionYaml_def parseWorkflowYaml_def parse_with_def actual_path_def
         example_env_def validateWorkflowConfig_def workflow_with_jobs_def truthy_def)
  have "set (map (call_path example_env)
          [ParseAction None, ParseWorkflow None, ParseAction None])
        = {''/repo/action.yml'', ''/repo/.github/workflows/test.yml''}"
    by (auto simp: actual_path_def example_env_def)
  then have "card (set (map (call_path example_env)
          [ParseAction None, ParseWorkflow None, ParseAction None])) = 2"
    by simp
  moreover have "(run_calls example_env
        [ParseAction None, ParseWorkflow None, ParseAction None] new_YamlParser = Some q \<longrightarrow>
      getCacheSize q = card (set (map (call_path example_env)
        [ParseAction None, ParseWorkflow None, ParseAction None]))) \<and>
      getCacheSize (clearCache q) = 0"
    by (rule conjunct2 [OF parse_cached])
  ultimately have "getCacheSize q = 2" "getCacheSize (clearCache q) = 0"
    using q by simp_all
  then show ?thesis using p1 again q by simp
qed

text \<open>
  C10. When \<^verbatim>\<open>parseActionYaml\<close> fails, by a file that cannot be read, a document that
  cannot be parsed or a validation that throws, the cache is what it was, it has no entry
  for the path, and the next call with the same path, whatever the files hold by then,
  reads the file again.
\<close>

theorem parse_failure_leaves_cache:
  "parseActionYaml env filePath p = (Inl e, p') \<longrightarrow>
     cache p' = cache p \<and> getCacheSize p' = getCacheSize p \<and>
     map_of (cache p') (actual_path (default_action_path env) filePath) = None \<and>
     (default_action_path env' = default_action_path env \<longrightarrow>
        file_reads (snd (parseActionYaml env' filePath p')) =
          file_reads p' @ [actual_path (default_action_path env) filePath])"
proof
  assume a: "parseActionYaml env filePath p = (Inl e, p')"
  then have f: "cache p' = cache p \<and>
      map_of (cache p) (actual_path (default_action_path env) filePath) = None"
    using parse_with_failure
      [of validateActionConfig env "actual_path (default_action_path env) filePath" p e p']
    by (simp add: parseActionYaml_def)
  then show "cache p' = cache p \<and> getCacheSize p' = getCacheSize p \<and>
     map_of (cache p') (actual_path (default_action_path env) filePath) = None \<and>
     (default_action_path env' = default_action_path env \<longrightarrow>
        file_reads (snd (parseActionYaml env' filePath p')) =
          file_reads p' @ [actual_path (default_action_path env) filePath])"
    by (simp add: getCacheSize_def parseActionYaml_def parse_with_uncached_reads)
qed

theorem parse_failure_leaves_cache_witness:
  "fst (parseActionYaml example_env (Some ''/repo/nameless.yml'') new_YamlParser)
     = Inl (ConfigError ''Action must have a name'') \<and>
   fst (parseActionYaml example_env (Some ''/repo/missing.yml'') new_YamlParser) = Inl ReadError \<and>
   cache (snd (parseActionYaml example_env (Some ''/repo/nameless.yml'') new_YamlParser)) = [] \<and>
   file_reads (snd (parseActionYaml example_env (Some ''/repo/nameless.yml'')
      (snd (parseActionYaml example_env (Some ''/repo/nameless.yml'') new_YamlParser))))
     = [''/repo/nameless.yml'', ''/repo/nameless.yml'']"
proof -
  obtain p1 where p1: "parseActionYaml example_env (Some ''/repo/nameless.yml'') new_YamlParser =
      (Inl (ConfigError ''Action must have a name''), p1)"
    and r1: "file_reads p1 = [''/repo/nameless.yml'']"
    using parse_nameless_example by simp
  have missing: "fst (parseActionYaml example_env (Some ''/repo/missing.yml'') new_YamlParser)
                   = Inl ReadError"
    by (simp add: parseActionYaml_def parse_with_def actual_path_def example_env_def
        new_YamlParser_def)
  have "cache p1 = cache new_YamlParser \<and> getCacheSize p1 = getCacheSize new_YamlParser \<and>
     map_of (cache p1)
       (actual_path (default_action_path example_env) (Some ''/repo/nameless.yml'')) = None \<and>
     (default_action_path example_env = default_action_path example_env \<longrightarrow>
        file_reads (snd (parseActionYaml example_env (Some ''/repo/nameless.yml'') p1)) =
          file_reads p1 @
            [actual_path (default_action_path example_env) (Some ''/repo/nameless.yml'')])"
    using p1 by (rule parse_failure_leaves_cache [THEN mp])
  then have "cache p1 = []"
    "file_reads (snd (parseActionYaml example_env (Some ''/repo/nameless.yml'') p1))
       = [''/repo/nameless.yml'', ''/repo/nameless.yml'']"
    using r1 by (simp_all add: new_YamlParser_def actual_path_def)
  then show ?thesis using p1 missing by simp
qed

section \<open>The matrix of the test job\<close>

lemma length_big_axis: "length (big_axis v) = 94906267"
  by (simp only: big_axis_def length_replicate)

lemma round_to_double_exact: "p < 2 ^ 53 \<Longrightarrow> round_to_double p = p"
  by (simp add: round_to_double_def)

lemma bit_length_zero: "bit_length 0 = 0"
  by (subst bit_length.simps) simp

lemma bit_length_one: "bit_length (Suc 0) = Suc 0"
  by (subst bit_length.simps) (simp add: bit_length_zero)

lemma bit_length_Bit0: "bit_length (numeral (Num.Bit0 k)) = Suc (bit_length (numeral k))"
  by (subst bit_length.simps) simp

lemma bit_length_Bit1: "bit_length (numeral (Num.Bit1 k)) = Suc (bit_length (numeral k))"
  by (subst bit_length.simps) simp

lemma bit_length_One: "bit_length (numeral Num.One) = Suc 0"
  by (simp add: bit_length_one)

lemmas bit_length_numeral = bit_length_Bit0 bit_length_Bit1 bit_length_One bit_length_one

lemma bl: "bit_length 9007199515875289 = 54"
  by (simp add: bit_length_numeral)

lemma round_to_double_big: "round_to_double 9007199515875289 = 9007199515875288"
  by (simp add: round_to_double_def bl Let_def)

text \<open>
  C7, as stated, fails. With two axes of 94906267 values each the exact product of the
  lengths is 9007199515875289, which is no double, and the total returned is
  9007199515875288.
\<close>

theorem analyzeWorkflowMatrix_inexact:
  "analyzeWorkflowMatrix example_env
      (Some (workflow_with_jobs
         [(''test'', matrix_job (Some [(''os'', big_axis ''ubuntu-latest''),
                                       (''node-version'', big_axis ''20.x'')]))]))
      new_YamlParser =
     (Inr \<lparr>operatingSystems = big_axis ''ubuntu-latest'', nodeVersions = big_axis ''20.x'',
           totalCombinations = 9007199515875288\<rparr>, new_YamlParser) \<and>
   length (big_axis ''ubuntu-latest'') * length (big_axis ''20.x'') = 9007199515875289"
proof -
  have "length (big_axis ''ubuntu-latest'') * length (big_axis ''20.x'') = 9007199515875289"
    by (simp add: length_big_axis)
  then show ?thesis
    by (simp add: analyzeWorkflowMatrix_def matrix_of_config_def axis_def
        workflow_with_jobs_def matrix_job_def js_multiply_def round_to_double_big)
qed

text \<open>
  C7, amended. For a workflow definition that is passed to \<^verbatim>\<open>analyzeWorkflowMatrix\<close>: when
  the job \<^verbatim>\<open>test\<close> has a matrix, the result holds the axes \<^verbatim>\<open>os\<close> and \<^verbatim>\<open>node-version\<close> as
  they are, an absent axis as the empty list, and the product of their lengths as a
  JavaScript number, repeated values counted as often as they occur: the exact product
  when it is below \<open>2\<^sup>5\<^sup>3\<close>, the nearest double otherwise. When the job \<^verbatim>\<open>test\<close> is absent
  or has no strategy or no matrix, the result is two empty lists and zero; and the axes
  \<open>[A, B, C]\<close> and \<open>[V]\<close> give three combinations.
\<close>

theorem analyzeWorkflowMatrix_product:
  "(cfg_jobs wc = Some jobs \<and> map_of jobs ''test'' = Some testJob \<and>
    strategy testJob = Some strat \<and> matrix strat = Some m \<and>
    os = (case map_of m ''os'' of None \<Rightarrow> [] | Some values \<Rightarrow> values) \<and>
    versions = (case map_of m ''node-version'' of None \<Rightarrow> [] | Some values \<Rightarrow> values) \<longrightarrow>
      analyzeWorkflowMatrix env (Some wc) p =
        (Inr \<lparr>operatingSystems = os, nodeVersions = versions,
              totalCombinations = round_to_double (length os * length versions)\<rparr>, p) \<and>
      (length os * length versions < 2 ^ 53 \<longrightarrow>
         analyzeWorkflowMatrix env (Some wc) p =
           (Inr \<lparr>operatingSystems = os, nodeVersions = versions,
                 totalCombinations = length os * length versions\<rparr>, p))) \<and>
   (cfg_jobs wc = Some jobs \<and>
    (map_of jobs ''test'' = None \<or>
     (\<exists>testJob. map_of jobs ''test'' = Some testJob \<and>
        (strategy testJob = None \<or>
         (\<exists>strat. strategy testJob = Some strat \<and> matrix strat = None)))) \<longrightarrow>
      analyzeWorkflowMatrix env (Some wc) p =
        (Inr \<lparr>operatingSystems = [], nodeVersions = [], totalCombinations = 0\<rparr>, p)) \<and>
   analyzeWorkflowMatrix env
      (Some (workflow_with_jobs
         [(''test'', matrix_job (Some [(''os'', [A, B, C]), (''node-version'', [V])]))])) p =
     (Inr \<lparr>operatingSystems = [A, B, C], nodeVersions = [V], totalCombinations = 3\<rparr>, p)"
proof (intro conjI impI)
  assume a: "cfg_jobs wc = Some jobs \<and> map_of jobs ''test'' = Some testJob \<and>
    strategy testJob = Some strat \<and> matrix strat = Some m \<and>
    os = (case map_of m ''os'' of None \<Rightarrow> [] | Some values \<Rightarrow> values) \<and>
    versions = (case map_of m ''node-version'' of None \<Rightarrow> [] | Some values \<Rightarrow> values)"
  then show r: "analyzeWorkflowMatrix env (Some wc) p =
        (Inr \<lparr>operatingSystems = os, nodeVersions = versions,
              totalCombinations = round_to_double (length os * length versions)\<rparr>, p)"
    by (simp add: analyzeWorkflowMatrix_def matrix_of_config_def axis_def js_multiply_def)
  assume "length os * length versions < 2 ^ 53"
  then show "analyzeWorkflowMatrix env (Some wc) p =
           (Inr \<lparr>operatingSystems = os, nodeVersions = versions,
                 totalCombinations = length os * length versions\<rparr>, p)"
    using r by (simp add: round_to_double_exact)
next
  assume "cfg_jobs wc = Some jobs \<and>
    (map_of jobs ''test'' = None \<or>
     (\<exists>testJob. map_of jobs ''test'' = Some testJob \<and>
        (strategy testJob = None \<or>
         (\<exists>strat. strategy testJob = Some strat \<and> matrix strat = None))))"
  then show "analyzeWorkflowMatrix env (Some wc) p =
        (Inr \<lparr>operatingSystems = [], nodeVersions = [], totalCombinations = 0\<rparr>, p)"
    by (auto simp: analyzeWorkflowMatrix_def matrix_of_config_def no_matrix_def)
next
  show "analyzeWorkflowMatrix env
      (Some (workflow_with_jobs
         [(''test'', matrix_job (Some [(''os'', [A, B, C]), (''node-version'', [V])]))])) p =
     (Inr \<lparr>operatingSystems = [A, B, C], nodeVersions = [V], totalCombinations = 3\<rparr>, p)"
    by (simp add: analyzeWorkflowMatrix_def matrix_of_config_def axis_def js_multiply_def
        workflow_with_jobs_def matrix_job_def round_to_double_exact)
qed

theorem analyzeWorkflowMatrix_product_witness:
  "analyzeWorkflowMatrix example_env
      (Some (workflow_with_jobs
         [(''test'', matrix_job (Some [(''os'', [''ubuntu-latest'', ''ubuntu-latest'']),
                                       (''node-version'', [''20.x'', ''22.x''])]))]))
      new_YamlParser =
     (Inr \<lparr>operatingSystems = [''ubuntu-latest'', ''ubuntu-latest''],
           nodeVersions = [''20.x'', ''22.x''], totalCombinations = 4\<rparr>, new_YamlParser) \<and>
   analyzeWorkflowMatrix example_env
      (Some (workflow_with_jobs
         [(''test'', matrix_job (Some [(''node-version'', [''20.x'', ''22.x''])]))]))
      new_YamlParser =
     (Inr \<lparr>operatingSystems = [], nodeVersions = [''20.x'', ''22.x''],
           totalCombinations = 0\<rparr>, new_YamlParser) \<and>
   analyzeWorkflowMatrix example_env
      (Some (workflow_with_jobs [(''test'', matrix_job None)])) new_YamlParser =
     (Inr \<lparr>operatingSystems = [], nodeVersions = [], totalCombinations = 0\<rparr>, new_YamlParser) \<and>
   analyzeWorkflowMatrix example_env
      (Some (workflow_with_jobs [(''build'', matrix_job None)])) new_YamlParser =
     (Inr \<lparr>operatingSystems = [], nodeVersions = [], totalCombinations = 0\<rparr>, new_YamlParser)"
proof -
  have jobs: "cfg_jobs (workflow_with_jobs js) = Some js" for js
    by (simp add: workflow_with_jobs_def)
  have mj: "strategy (matrix_job m) = Some \<lparr>matrix = m\<rparr>" for m
    by (simp add: matrix_job_def)
  have with_matrix: "length os * length versions < 2 ^ 53 \<longrightarrow>
      analyzeWorkflowMatrix example_env
        (Some (workflow_with_jobs [(''test'', matrix_job (Some m))])) new_YamlParser =
      (Inr \<lparr>operatingSystems = os, nodeVersions = versions,
            totalCombinations = length os * length versions\<rparr>, new_YamlParser)"
    if "os = (case map_of m ''os'' of None \<Rightarrow> [] | Some values \<Rightarrow> values)"
      and "versions = (case map_of m ''node-version'' of None \<Rightarrow> [] | Some values \<Rightarrow> values)"
    for m os versions
  proof -
    have hyp: "cfg_jobs (workflow_with_jobs [(''test'', matrix_job (Some m))])
          = Some [(''test'', matrix_job (Some m))] \<and>
        map_of [(''test'', matrix_job (Some m))] ''test'' = Some (matrix_job (Some m)) \<and>
        strategy (matrix_job (Some m)) = Some \<lparr>matrix = Some m\<rparr> \<and>
        matrix \<lparr>matrix = Some m\<rparr> = Some m \<and>
        os = (case map_of m ''os'' of None \<Rightarrow> [] | Some values \<Rightarrow> values) \<and>
        versions = (case map_of m ''node-version'' of None \<Rightarrow> [] | Some values \<Rightarrow> values)"
      using that by (simp add: jobs mj)
    show ?thesis
      by (rule conjunct2 [OF mp [OF conjunct1 [OF analyzeWorkflowMatrix_product] hyp]])
  qed
  have 1: "analyzeWorkflowMatrix example_env
      (Some (workflow_with_jobs
         [(''test'', matrix_job (Some [(''os'', [''ubuntu-latest'', ''ubuntu-latest'']),
                                       (''node-version'', [''20.x'', ''22.x''])]))]))
      new_YamlParser =
     (Inr \<lparr>operatingSystems = [''ubuntu-latest'', ''ubuntu-latest''],
           nodeVersions = [''20.x'', ''22.x''], totalCombinations = 4\<rparr>, new_YamlParser)"
    using with_matrix [of "[''ubuntu-latest'', ''ubuntu-latest'']"
        "[(''os'', [''ubuntu-latest'', ''ubuntu-latest'']), (''node-version'', [''20.x'', ''22.x''])]"
        "[''20.x'', ''22.x'']"]
    by simp
  have 2: "analyzeWorkflowMatrix example_env
      (Some (workflow_with_jobs
         [(''test'', matrix_job (Some [(''node-version'', [''20.x'', ''22.x''])]))]))
      new_YamlParser =
     (Inr \<lparr>operatingSystems = [], nodeVersions = [''20.x'', ''22.x''],
           totalCombinations = 0\<rparr>, new_YamlParser)"
    using with_matrix [of "[]" "[(''node-version'', [''20.x'', ''22.x''])]" "[''20.x'', ''22.x'']"]
    by simp
  have 3: "analyzeWorkflowMatrix example_env
      (Some (workflow_with_jobs [(''test'', matrix_job None)])) new_YamlParser =
     (Inr \<lparr>operatingSystems = [], nodeVersions = [], totalCombinations = 0\<rparr>, new_YamlParser)"
    using conjunct1 [OF conjunct2 [OF analyzeWorkflowMatrix_product
      [where wc = "workflow_with_jobs [(''test'', matrix_job None)]"
        and jobs = "[(''test'', matrix_job None)]"
        and env = example_env and p = new_YamlParser]]]
    by (simp add: jobs mj)
  have 4: "analyzeWorkflowMatrix example_env
      (Some (workflow_with_jobs [(''build'', matrix_job None)])) new_YamlParser =
     (Inr \<lparr>operatingSystems = [], nodeVersions = [], totalCombinations = 0\<rparr>, new_YamlParser)"
    using conjunct1 [OF conjunct2 [OF analyzeWorkflowMatrix_product
      [where wc = "workflow_with_jobs [(''build'', matrix_job None)]"
        and jobs = "[(''build'', matrix_job None)]"
        and env = example_env and p = new_YamlParser]]]
    by (simp add: jobs)
  show ?thesis using 1 2 3 4 by blast
qed

section \<open>Reset of the mocker\<close>

text \<open>
  C8. After \<^verbatim>\<open>reset\<close> the mocker has no pattern and no output: \<^verbatim>\<open>executeCommand\<close> throws
  the error \<^verbatim>\<open>No mock found for command: <line>\<close> for every line, and \<^verbatim>\<open>getOutput\<close> finds
  nothing under any key, whatever was mocked or set before.
\<close>

theorem reset_clears:
  "mockedCommands (reset m) = [] \<and>
   outputs (reset m) = Map.empty \<and>
   executeCommand line (reset m) w = (Thrown (JsError (''No mock found for command: '' @ line)), w) \<and>
   getOutput key (reset m) = None"
  by (simp add: reset_def executeCommand_def getOutput_def no_mock_message_def)

theorem reset_clears_witness:
  "fst (executeCommand ''test-command'' example_mocker ()) = Returned (JsString ''result'') \<and>
   getOutput ''steps.test.outputs.result'' example_mocker = Some ''value'' \<and>
   executeCommand ''test-command'' (reset example_mocker) ()
     = (Thrown (JsError ''No mock found for command: test-command''), ()) \<and>
   getOutput ''steps.test.outputs.result'' (reset example_mocker) = None"
proof -
  have before_reset:
    "fst (executeCommand ''test-command'' example_mocker ()) = Returned (JsString ''result'')"
    "getOutput ''steps.test.outputs.result'' example_mocker = Some ''value''"
    by (simp_all add: example_mocker_def executeCommand_def setOutput_def mockCommand_def
        new_WorkflowMocker_def getOutput_def)
  show ?thesis
    using before_reset
      reset_clears [of example_mocker "''test-command''" "()" "''steps.test.outputs.result''"]
    by simp
qed

section \<open>PowerShell steps\<close>

lemma process_line_powershell:
  assumes "step_shell step = Some Powershell"
  shows "fst (process_line step line st) = None \<and>
         dispatched (snd (process_line step line st)) = dispatched st \<and>
         world (snd (process_line step line st)) = world st \<and>
         mockedCommands (mocker (snd (process_line step line st))) = mockedCommands (mocker st)"
  using assms
  by (simp add: process_line_def Let_def record_output_frame split: option.splits)

lemma run_lines_powershell:
  assumes "step_shell step = Some Powershell"
  shows "fst (run_lines step lines st) = None \<and>
         dispatched (snd (run_lines step lines st)) = dispatched st \<and>
         world (snd (run_lines step lines st)) = world st \<and>
         mockedCommands (mocker (snd (run_lines step lines st))) = mockedCommands (mocker st)"
proof (induction lines arbitrary: st)
  case Nil
  then show ?case by simp
next
  case (Cons line lines)
  obtain st' where pl: "process_line step line st = (None, st')"
    using process_line_powershell [OF assms, of line st]
    by (cases "process_line step line st") auto
  have frame: "dispatched st' = dispatched st" "world st' = world st"
      "mockedCommands (mocker st') = mockedCommands (mocker st)"
    using process_line_powershell [OF assms, of line st] pl by simp_all
  show ?case using Cons.IH [of st'] pl frame by simp
qed

text \<open>
  C9. The simulation of a step whose shell is \<^verbatim>\<open>powershell\<close> succeeds whatever its script,
  the inputs and the mocks are; it hands no line to \<^verbatim>\<open>executeCommand\<close>, calls no handler
  and leaves the mocked commands as they are. So it never fails for a missing mock.
\<close>

theorem powershell_never_dispatches:
  assumes "step_shell step = Some Powershell"
  shows "(\<exists>res. fst (simulateWorkflowStep step inputs st) = Returns res \<and>
               success res \<and> error res = None) \<and>
         dispatched (snd (simulateWorkflowStep step inputs st)) = dispatched st \<and>
         world (snd (simulateWorkflowStep step inputs st)) = world st \<and>
         mockedCommands (mocker (snd (simulateWorkflowStep step inputs st))) =
           mockedCommands (mocker st)"
proof (cases "step_run step")
  case None
  then show ?thesis by (simp add: simulateWorkflowStep_def)
next
  case (Some run)
  show ?thesis
  proof (cases "run = []")
    case True
    with Some show ?thesis by (simp add: simulateWorkflowStep_def)
  next
    case False
    obtain st' where rl: "run_lines step (split_lines (interpolate inputs run)) st = (None, st')"
      using run_lines_powershell [OF assms, of "split_lines (interpolate inputs run)" st]
      by (cases "run_lines step (split_lines (interpolate inputs run)) st") auto
    then show ?thesis
      using run_lines_powershell [OF assms, of "split_lines (interpolate inputs run)" st] Some False
      by (simp add: simulateWorkflowStep_def)
  qed
qed

theorem powershell_never_dispatches_witness:
  "step_shell (clone_step Powershell) = Some Powershell \<and>
   (\<exists>res. fst (simulateWorkflowStep (clone_step Powershell) [] empty_state) = Returns res \<and>
          success res \<and> error res = None) \<and>
   dispatched (snd (simulateWorkflowStep (clone_step Powershell) [] empty_state)) = [] \<and>
   fst (simulateWorkflowStep (clone_step Bash) [] empty_state)
     = Returns \<lparr>success = False, result_outputs = None,
         error = Some ''No mock found for command: git clone repo''\<rparr>"
proof -
  have ps: "step_shell (clone_step Powershell) = Some Powershell"
    by (simp add: clone_step_def)
  have bash: "fst (simulateWorkflowStep (clone_step Bash) [] empty_state)
     = Returns \<lparr>success = False, result_outputs = None,
         error = Some ''No mock found for command: git clone repo''\<rparr>"
    by (simp add: simulateWorkflowStep_def split_lines_def process_line_def trim_plain Let_def
        clone_step_def empty_state_def executeCommand_def new_WorkflowMocker_def
        no_mock_message_def)
  have "dispatched empty_state = []"
    by (simp add: empty_state_def)
  then show ?thesis
    using ps bash powershell_never_dispatches [OF ps, of "[]" empty_state]
    by simp
qed

end
